theory Spec2Isabelle
  imports Complex_Main "HOL-Library.Word" "HOL-Library.Sublist"
begin

section \<open>The sample event handler (events/janus\_sampleevh.c)\<close>

text \<open>
  A shallow embedding of the plugin: its file-scope variables are the fields of a record
  that every operation takes and returns; every call that leaves the plugin (the JSON
  library's reference counting, the log macro, libcurl, GLib's allocator and threads) is
  appended to a trace, in program order. Blocking and spinning are the value \<open>None\<close>.
\<close>

subsection \<open>JSON values and pointers to them\<close>

text \<open>
  The JSON library's value type: a JSON integer is a 64-bit signed integer, a JSON real
  is a double (only its tag is ever read here). Objects keep their key order.
\<close>

datatype json =
    Json_object "(string \<times> json) list"
  | Json_array "json list"
  | Json_string string
  | Json_integer "64 word"
  | Json_real real
  | Json_true
  | Json_false
  | Json_null

text \<open>\<open>json_object_get\<close>: the member of that name, null when there is none or when the
  value is not an object.\<close>

fun json_object_get :: "json \<Rightarrow> string \<Rightarrow> json option" where
  "json_object_get (Json_object kvs) key = map_of kvs key"
| "json_object_get _ key = None"

fun json_is_integer :: "json \<Rightarrow> bool" where
  "json_is_integer (Json_integer _) = True"
| "json_is_integer _ = False"

fun json_integer_value :: "json \<Rightarrow> 64 word" where
  "json_integer_value (Json_integer v) = v"
| "json_integer_value _ = 0"

text \<open>
  A \<open>json_t *\<close>: null, the address of the static \<open>exit_event\<close>, or the address of an
  event object of the host. Pointers are compared by identity.
\<close>

datatype json_ptr = NULL | Exit_event | Event nat

subsection \<open>Event kinds and the mask\<close>

datatype event_kind = Session | Handle | Jsep | Webrtc | Media | Plugin | Transport

text \<open>Modelled from the spec: the flag constants of eventhandler.h and the flag helpers
  of utils.h are not part of the sources at hand. The mask is a set over the event kinds,
  one kind per bit; \<open>all\<close> is the universe and \<open>none\<close> is empty; setting a flag adds
  its bits and resetting clears them all.\<close>

type_synonym janus_flags = "event_kind set"

definition JANUS_EVENT_TYPE_NONE :: janus_flags where
  "JANUS_EVENT_TYPE_NONE = {}"

definition JANUS_EVENT_TYPE_SESSION :: janus_flags where
  "JANUS_EVENT_TYPE_SESSION = {Session}"

definition JANUS_EVENT_TYPE_HANDLE :: janus_flags where
  "JANUS_EVENT_TYPE_HANDLE = {Handle}"

definition JANUS_EVENT_TYPE_JSEP :: janus_flags where
  "JANUS_EVENT_TYPE_JSEP = {Jsep}"

definition JANUS_EVENT_TYPE_WEBRTC :: janus_flags where
  "JANUS_EVENT_TYPE_WEBRTC = {Webrtc}"

definition JANUS_EVENT_TYPE_MEDIA :: janus_flags where
  "JANUS_EVENT_TYPE_MEDIA = {Media}"

definition JANUS_EVENT_TYPE_PLUGIN :: janus_flags where
  "JANUS_EVENT_TYPE_PLUGIN = {Plugin}"

definition JANUS_EVENT_TYPE_TRANSPORT :: janus_flags where
  "JANUS_EVENT_TYPE_TRANSPORT = {Transport}"

definition JANUS_EVENT_TYPE_ALL :: janus_flags where
  "JANUS_EVENT_TYPE_ALL = {Session, Handle, Jsep, Webrtc, Media, Plugin, Transport}"

definition janus_flags_reset :: "janus_flags \<Rightarrow> janus_flags" where
  "janus_flags_reset flags = {}"

definition janus_flags_set :: "janus_flags \<Rightarrow> janus_flags \<Rightarrow> janus_flags" where
  "janus_flags_set flags flag = flags \<union> flag"

subsection \<open>The trace of outside calls\<close>

datatype log_level = LOG_FATAL | LOG_ERR | LOG_WARN | LOG_INFO | LOG_VERB | LOG_DBG

datatype log_arg = Arg_str string | Arg_u64 "64 word" | Arg_int int

text \<open>A pointer to memory of the plugin's own: null, live, or already given back.\<close>

datatype 'a alloc = Null | Live 'a | Freed

datatype curl_code = CURLE_OK | CURLE_error nat

text \<open>
  One entry per call, in program order. \<open>JANUS_LOG\<close> carries the level, the format string
  as the source has it, and the arguments; whether the line is printed is the log
  facility's business.
\<close>

datatype effect =
    Atomic_set_initialized bool
  | Atomic_set_stopping bool
  | Json_incref json_ptr
  | Json_decref json_ptr
  | JANUS_LOG log_level string "log_arg list"
  | Janus_config_print
  | Janus_config_destroy
  | G_strdup string
  | G_free_backend "string alloc"
  | Curl_global_init
  | G_async_queue_new_full
  | G_async_queue_unref
  | G_thread_try_new bool
  | G_thread_join
  | Curl_easy_init bool
  | Curl_easy_perform "string alloc" "string list" "string option" curl_code
  | Curl_easy_cleanup
  | G_free_text

subsection \<open>The plugin's variables\<close>

text \<open>
  \<open>events\<close> is the queue pointer: \<open>None\<close> is the null pointer, \<open>Some q\<close> a queue whose
  head is the entry popped next. \<open>handler_thread\<close> is the thread handle (\<open>False\<close> is null).
  \<open>objects\<close> gives the contents of the host's event objects.
\<close>

record state =
  initialized :: bool
  stopping :: bool
  handler_thread :: bool
  events :: "json_ptr list option"
  backend :: "string alloc"
  events_mask :: janus_flags
  objects :: "nat \<Rightarrow> json"
  trace :: "effect list"

definition emit :: "effect \<Rightarrow> state \<Rightarrow> state" where
  "emit e st = st\<lparr>trace := trace st @ [e]\<rparr>"

definition initial_state :: state where
  "initial_state = \<lparr>initialized = False, stopping = False, handler_thread = False,
     events = None, backend = Null, events_mask = JANUS_EVENT_TYPE_NONE,
     objects = (\<lambda>_. Json_null), trace = []\<rparr>"

definition g_atomic_int_set_initialized :: "bool \<Rightarrow> state \<Rightarrow> state" where
  "g_atomic_int_set_initialized v st = emit (Atomic_set_initialized v) (st\<lparr>initialized := v\<rparr>)"

definition g_atomic_int_set_stopping :: "bool \<Rightarrow> state \<Rightarrow> state" where
  "g_atomic_int_set_stopping v st = emit (Atomic_set_stopping v) (st\<lparr>stopping := v\<rparr>)"

text \<open>\<open>g_async_queue_push\<close> returns at once, with a warning, on a null queue or null
  data; otherwise the entry goes to the back.\<close>

definition g_async_queue_push :: "json_ptr \<Rightarrow> state \<Rightarrow> state" where
  "g_async_queue_push p st =
     (case events st of
        None \<Rightarrow> st
      | Some q \<Rightarrow> if p = NULL then st else st\<lparr>events := Some (q @ [p])\<rparr>)"

subsection \<open>The queue's destroy notifier\<close>

definition janus_sampleevh_event_free :: "json_ptr \<Rightarrow> state \<Rightarrow> state" where
  "janus_sampleevh_event_free event st =
     (if event = NULL \<or> event = Exit_event then st else emit (Json_decref event) st)"

text \<open>\<open>g_async_queue_unref\<close> drops the only reference: the notifier runs on every entry
  left, newest first, and the queue is gone. A null queue is refused.\<close>

definition g_async_queue_unref :: "state \<Rightarrow> state" where
  "g_async_queue_unref st =
     (case events st of
        None \<Rightarrow> st
      | Some q \<Rightarrow> emit G_async_queue_unref (fold janus_sampleevh_event_free (rev q) st))"

subsection \<open>Ingress\<close>

definition janus_sampleevh_incoming_event :: "json_ptr \<Rightarrow> state \<Rightarrow> state" where
  "janus_sampleevh_incoming_event event st =
     (if stopping st \<or> \<not> initialized st then emit (Json_decref event) st
      else g_async_queue_push event (emit (Json_incref event) st))"

subsection \<open>C strings\<close>

text \<open>The C library in the C locale, on the strings the plugin hands it.\<close>

definition isspace :: "char \<Rightarrow> bool" where
  "isspace c = (c \<in> {CHR '' '', CHR 0x09, CHR 0x0A, CHR 0x0B, CHR 0x0C, CHR 0x0D})"

definition tolower :: "char \<Rightarrow> char" where
  "tolower c =
     (let n = (of_char c :: nat) in if 65 \<le> n \<and> n \<le> 90 then char_of (n + 32) else c)"

text \<open>\<open>strcasecmp\<close> is only ever tested against zero here: zero exactly when the two
  strings agree once letters are folded to lower case.\<close>

definition strcasecmp :: "string \<Rightarrow> string \<Rightarrow> int" where
  "strcasecmp a b = (if map tolower a = map tolower b then 0 else 1)"

text \<open>\<open>strstr\<close>: the offset of the first occurrence of the needle, if any.\<close>

fun strstr :: "string \<Rightarrow> string \<Rightarrow> nat option" where
  "strstr [] needle = (if needle = [] then Some 0 else None)"
| "strstr (c # cs) needle =
     (if prefix needle (c # cs) then Some 0 else map_option Suc (strstr cs needle))"

text \<open>\<open>g_strsplit\<close> with a one-character delimiter and no limit on the number of
  pieces: the pieces between the delimiters, empty ones included; the empty string
  has no piece at all.\<close>

fun split_at_char :: "char \<Rightarrow> string \<Rightarrow> string list" where
  "split_at_char d [] = [[]]"
| "split_at_char d (c # cs) =
     (if c = d then [] # split_at_char d cs
      else (case split_at_char d cs of
              [] \<Rightarrow> [[c]]
            | t # ts \<Rightarrow> (c # t) # ts))"

definition g_strsplit :: "string \<Rightarrow> char \<Rightarrow> string list" where
  "g_strsplit s d = (if s = [] then [] else split_at_char d s)"

subsection \<open>Configuration\<close>

text \<open>
  The configuration parser is the host's. A parsed file is seen through
  \<open>janus_config_get_item_drilldown\<close> only: category and item name to the item, if any;
  an item's value may be null.
\<close>

record janus_config_item =
  item_value :: "string option"

type_synonym janus_config = "string \<Rightarrow> string \<Rightarrow> janus_config_item option"

definition janus_config_get_item_drilldown ::
  "janus_config \<Rightarrow> string \<Rightarrow> string \<Rightarrow> janus_config_item option" where
  "janus_config_get_item_drilldown config category name = config category name"

record gerror =
  error_code :: int
  error_message :: "string option"

text \<open>What init gets from outside: the file system through the parser, the host's
  truth test for option values, and whether the thread could be started.\<close>

record init_env =
  janus_config_parse :: "string \<Rightarrow> janus_config option"
  janus_is_true :: "string \<Rightarrow> bool"
  g_thread_try_new :: "gerror option"

definition JANUS_SAMPLEEVH_NAME :: string where
  "JANUS_SAMPLEEVH_NAME = ''JANUS SampleEventHandler plugin''"

definition JANUS_SAMPLEEVH_PACKAGE :: string where
  "JANUS_SAMPLEEVH_PACKAGE = ''janus.eventhandler.sampleevh''"

definition set_events_mask :: "janus_flags \<Rightarrow> state \<Rightarrow> state" where
  "set_events_mask flag st = st\<lparr>events_mask := janus_flags_set (events_mask st) flag\<rparr>"

text \<open>Lines 142 to 160: one piece of the \<open>events\<close> value, its leading white space
  already skipped.\<close>

definition subscribe_one :: "string \<Rightarrow> state \<Rightarrow> state" where
  "subscribe_one index st =
     (if index \<noteq> [] then
        (if strcasecmp index ''sessions'' = 0 then set_events_mask JANUS_EVENT_TYPE_SESSION st
         else if strcasecmp index ''handles'' = 0 then set_events_mask JANUS_EVENT_TYPE_HANDLE st
         else if strcasecmp index ''jsep'' = 0 then set_events_mask JANUS_EVENT_TYPE_JSEP st
         else if strcasecmp index ''webrtc'' = 0 then set_events_mask JANUS_EVENT_TYPE_WEBRTC st
         else if strcasecmp index ''media'' = 0 then set_events_mask JANUS_EVENT_TYPE_MEDIA st
         else if strcasecmp index ''plugins'' = 0 then set_events_mask JANUS_EVENT_TYPE_PLUGIN st
         else if strcasecmp index ''transports'' = 0 then set_events_mask JANUS_EVENT_TYPE_TRANSPORT st
         else emit (JANUS_LOG LOG_WARN ''Unknown event type '%s'\<newline>'' [Arg_str index]) st)
      else st)"

text \<open>The loop over the pieces (lines 139 to 163).\<close>

fun subscribe_loop :: "string list \<Rightarrow> state \<Rightarrow> state" where
  "subscribe_loop [] st = st"
| "subscribe_loop (piece # rest) st =
     subscribe_loop rest (subscribe_one (dropWhile isspace piece) st)"

text \<open>Lines 124 to 168: which events to subscribe to.\<close>

definition subscribe_events :: "janus_config_item option \<Rightarrow> state \<Rightarrow> state" where
  "subscribe_events item st =
     (case item of
        None \<Rightarrow> st
      | Some it \<Rightarrow>
          (case item_value it of
             None \<Rightarrow> st
           | Some v \<Rightarrow>
               if strcasecmp v ''none'' = 0 then st\<lparr>events_mask := janus_flags_reset (events_mask st)\<rparr>
               else if strcasecmp v ''all'' = 0 then set_events_mask JANUS_EVENT_TYPE_ALL st
               else subscribe_loop (g_strsplit v CHR '','') st))"

text \<open>Lines 108 to 173: the configuration is read; the result is \<open>enabled\<close>.\<close>

definition read_config :: "init_env \<Rightarrow> janus_config option \<Rightarrow> state \<Rightarrow> bool \<times> state" where
  "read_config env config st =
     (case config of
        None \<Rightarrow> (False, st)
      | Some c \<Rightarrow>
          (let st1 = emit Janus_config_print st;
               item = janus_config_get_item_drilldown c ''general'' ''enabled''
           in if item = None \<or> item_value (the item) = None
                 \<or> \<not> janus_is_true env (the (item_value (the item)))
              then (False, emit (JANUS_LOG LOG_WARN ''Sample event handler disabled (Janus API)\<newline>'' []) st1)
              else
                (let item = janus_config_get_item_drilldown c ''general'' ''backend''
                 in if item = None \<or> item_value (the item) = None
                       \<or> strstr (the (item_value (the item))) ''http'' \<noteq> Some 0
                    then (False, emit (JANUS_LOG LOG_WARN ''Missing or invalid backend\<newline>'' []) st1)
                    else
                      (let url = the (item_value (the item));
                           st2 = emit (G_strdup url) (st1\<lparr>backend := Live url\<rparr>);
                           item = janus_config_get_item_drilldown c ''general'' ''events''
                       in (True, subscribe_events item st2)))))"

text \<open>Lines 183 to 200: libcurl, the queue, the flag and the thread.\<close>

definition start_handler :: "init_env \<Rightarrow> state \<Rightarrow> int \<times> state" where
  "start_handler env st =
     (let st1 = emit Curl_global_init st;
          st2 = emit G_async_queue_new_full (st1\<lparr>events := Some []\<rparr>);
          st3 = g_atomic_int_set_initialized True st2
      in (case g_thread_try_new env of
            Some error \<Rightarrow>
              (let st4 = emit (G_thread_try_new False) (st3\<lparr>handler_thread := False\<rparr>);
                   st5 = g_atomic_int_set_initialized False st4
               in (- 1,
                   emit (JANUS_LOG LOG_ERR
                     ''Got error %d (%s) trying to launch the SampleEventHandler handler thread...\<newline>''
                     [Arg_int (error_code error),
                      Arg_str (case error_message error of Some m \<Rightarrow> m | None \<Rightarrow> ''??'')]) st5))
          | None \<Rightarrow>
              (let st4 = emit (G_thread_try_new True) (st3\<lparr>handler_thread := True\<rparr>)
               in (0, emit (JANUS_LOG LOG_INFO ''%s initialized!\<newline>'' [Arg_str JANUS_SAMPLEEVH_NAME]) st4))))"

text \<open>Line 105: the file name, cut to the 255 bytes of the buffer (the last one is
  the terminator).\<close>

definition config_filename :: "string \<Rightarrow> string" where
  "config_filename config_path = take 254 (config_path @ ''/'' @ JANUS_SAMPLEEVH_PACKAGE @ ''.cfg'')"

definition janus_sampleevh_init :: "init_env \<Rightarrow> string option \<Rightarrow> state \<Rightarrow> int \<times> state" where
  "janus_sampleevh_init env config_path st =
     (if stopping st then (- 1, st)
      else (case config_path of
              None \<Rightarrow> (- 1, st)
            | Some path \<Rightarrow>
                (let filename = config_filename path;
                     st1 = emit (JANUS_LOG LOG_VERB ''Configuration file: %s\<newline>'' [Arg_str filename]) st;
                     config = janus_config_parse env filename;
                     (enabled, st2) = read_config env config st1;
                     st3 = emit Janus_config_destroy st2
                 in if \<not> enabled
                    then (- 1, emit (JANUS_LOG LOG_FATAL
                                 ''Sample event handler not enabled/needed, giving up...\<newline>'' []) st3)
                    else start_handler env
                           (emit (JANUS_LOG LOG_VERB ''Sample event handler configured: %s\<newline>''
                                    [case backend st3 of Live b \<Rightarrow> Arg_str b | _ \<Rightarrow> Arg_str []]) st3))))"

subsection \<open>The forwarder thread\<close>

text \<open>
  What the thread gets from outside. The clock and libcurl may answer differently at
  every call, so their answers are functions of the trace so far. \<open>json_dumps\<close> stands
  for the call with the flags of the source, \<open>JSON_INDENT(3) | JSON_PRESERVE_ORDER\<close>;
  it may return null.
\<close>

record handler_env =
  janus_get_monotonic_time :: "effect list \<Rightarrow> 64 word"
  json_dumps :: "json \<Rightarrow> string option"
  curl_easy_init :: "effect list \<Rightarrow> bool"
  curl_easy_perform :: "effect list \<Rightarrow> curl_code"
  curl_easy_strerror :: "curl_code \<Rightarrow> string"

definition request_headers :: "string list" where
  "request_headers =
     [''Accept: application/json'', ''Content-Type: application/json'', ''charsets: utf-8'']"

text \<open>Lines 284 to 290: how long the event waited. The difference of the two signed
  64-bit values is printed as an unsigned one (the conversion macro of the format is
  written out as it expands on 64-bit Linux).\<close>

definition log_delay :: "handler_env \<Rightarrow> nat \<Rightarrow> state \<Rightarrow> state" where
  "log_delay env n st =
     (case json_object_get (objects st n) ''timestamp'' of
        None \<Rightarrow> st
      | Some created \<Rightarrow>
          if json_is_integer created then
            (let then' = json_integer_value created;
                 now = janus_get_monotonic_time env (trace st)
             in emit (JANUS_LOG LOG_DBG ''Handled event after %lu us\<newline>'' [Arg_u64 (now - then')]) st)
          else st)"

text \<open>Lines 292 to 315: the event as text, sent by HTTP POST.\<close>

definition send_event :: "handler_env \<Rightarrow> nat \<Rightarrow> state \<Rightarrow> state" where
  "send_event env n st =
     (let event_text = json_dumps env (objects st n);
          curl = curl_easy_init env (trace st);
          st1 = emit (Curl_easy_init curl) st
      in if \<not> curl then emit (JANUS_LOG LOG_ERR ''Error initializing CURL context\<newline>'' []) st1
         else
           (let res = curl_easy_perform env (trace st1);
                st2 = emit (Curl_easy_perform (backend st1) request_headers event_text res) st1
            in if res \<noteq> CURLE_OK
               then emit (JANUS_LOG LOG_ERR ''Couldn't relay event to the backend: %s\<newline>''
                            [Arg_str (curl_easy_strerror env res)]) st2
               else emit (JANUS_LOG LOG_DBG ''Event sent!\<newline>'' []) st2))"

text \<open>The loop body once a real event has been popped (lines 284 to 321).\<close>

definition handle_event :: "handler_env \<Rightarrow> nat \<Rightarrow> state \<Rightarrow> state" where
  "handle_event env n st =
     emit (Json_decref (Event n))
       (emit G_free_text (emit Curl_easy_cleanup (send_event env n (log_delay env n st))))"

text \<open>
  Where the thread stands: before its first statement, at the test of the \<open>while\<close>,
  or inside \<open>g_async_queue_pop\<close>. \<open>handler_run\<close> runs the thread from there, alone,
  until it returns: \<open>None\<close> when it never does (it waits for ever on an empty queue, or
  spins on a null queue, whose pop returns null at once).
\<close>

datatype handler_pc = At_entry | At_while | In_pop

definition leave_handler :: "state \<Rightarrow> state" where
  "leave_handler st = emit (JANUS_LOG LOG_VERB ''Leaving SampleEventHandler handler thread\<newline>'' []) st"

function handler_run :: "handler_env \<Rightarrow> handler_pc \<Rightarrow> state \<Rightarrow> state option" where
  "handler_run env At_entry st =
     handler_run env At_while
       (emit (JANUS_LOG LOG_VERB ''Joining SampleEventHandler handler thread\<newline>'' []) st)"
| "handler_run env At_while st =
     (if initialized st \<and> \<not> stopping st then handler_run env In_pop st
      else Some (leave_handler st))"
| "handler_run env In_pop st =
     (case events st of
        None \<Rightarrow> if initialized st \<and> \<not> stopping st then None else Some (leave_handler st)
      | Some [] \<Rightarrow> None
      | Some (event # q) \<Rightarrow>
          (case event of
             NULL \<Rightarrow> handler_run env At_while (st\<lparr>events := Some q\<rparr>)
           | Exit_event \<Rightarrow> Some (leave_handler (st\<lparr>events := Some q\<rparr>))
           | Event n \<Rightarrow> handler_run env At_while (handle_event env n (st\<lparr>events := Some q\<rparr>))))"
  by pat_completeness auto
termination
  by (relation "measure (\<lambda>(env, pc, st).
        (case events st of None \<Rightarrow> 0 | Some q \<Rightarrow> 3 * length q)
        + (case pc of At_entry \<Rightarrow> 2 | At_while \<Rightarrow> 1 | In_pop \<Rightarrow> 0))")
     (auto simp: emit_def handle_event_def send_event_def log_delay_def Let_def
           split: option.splits)

definition janus_sampleevh_handler :: "handler_env \<Rightarrow> state \<Rightarrow> state option" where
  "janus_sampleevh_handler env st = handler_run env At_entry st"

subsection \<open>Destroy\<close>

text \<open>\<open>g_thread_join\<close> returns when the thread has; \<open>pc\<close> is where the thread stands
  when the join begins.\<close>

definition g_thread_join :: "handler_env \<Rightarrow> handler_pc \<Rightarrow> state \<Rightarrow> state option" where
  "g_thread_join env pc st = map_option (emit G_thread_join) (handler_run env pc st)"

definition g_free_backend :: "state \<Rightarrow> state" where
  "g_free_backend st =
     emit (G_free_backend (backend st))
       (st\<lparr>backend := (case backend st of Live _ \<Rightarrow> Freed | b \<Rightarrow> b)\<rparr>)"

text \<open>Lines 214 to 221, after the join.\<close>

definition finish_destroy :: "state \<Rightarrow> state" where
  "finish_destroy st =
     (let st1 = (g_async_queue_unref st)\<lparr>events := None\<rparr>;
          st2 = g_free_backend st1;
          st3 = g_atomic_int_set_initialized False st2;
          st4 = g_atomic_int_set_stopping False st3
      in emit (JANUS_LOG LOG_INFO ''%s destroyed!\<newline>'' [Arg_str JANUS_SAMPLEEVH_NAME]) st4)"

definition janus_sampleevh_destroy :: "handler_env \<Rightarrow> handler_pc \<Rightarrow> state \<Rightarrow> state option" where
  "janus_sampleevh_destroy env pc st =
     (if \<not> initialized st then Some st
      else
        (let st1 = g_atomic_int_set_stopping True st;
             st2 = g_async_queue_push Exit_event st1
         in map_option finish_destroy
              (if handler_thread st2
               then map_option (\<lambda>s. s\<lparr>handler_thread := False\<rparr>) (g_thread_join env pc st2)
               else Some st2)))"

subsection \<open>Concrete states and inputs\<close>

text \<open>A state with the plugin up: the queue exists and is empty, the thread runs.\<close>

definition running_state :: state where
  "running_state = initial_state\<lparr>initialized := True, handler_thread := True, events := Some [],
     backend := Live ''http://x''\<rparr>"

subsection \<open>The events list, as the specification words it\<close>

text \<open>
  The table of names, the tokens of a comma-separated value (the pieces between the
  commas, leading white space skipped), the kinds the tokens name without regard to
  case, and the tokens that are neither empty nor in the table.
\<close>

definition spec_event_table :: "(string \<times> event_kind) list" where
  "spec_event_table = [(''sessions'', Session), (''handles'', Handle), (''jsep'', Jsep),
     (''webrtc'', Webrtc), (''media'', Media), (''plugins'', Plugin), (''transports'', Transport)]"

definition spec_kind_of_token :: "string \<Rightarrow> event_kind option" where
  "spec_kind_of_token t = map_of spec_event_table (map tolower t)"

definition spec_tokens :: "string \<Rightarrow> string list" where
  "spec_tokens v = map (dropWhile isspace) (g_strsplit v CHR '','')"

definition spec_listed_kinds :: "string \<Rightarrow> event_kind set" where
  "spec_listed_kinds v = set (List.map_filter spec_kind_of_token (spec_tokens v))"

definition spec_unknown_tokens :: "string \<Rightarrow> string list" where
  "spec_unknown_tokens v = filter (\<lambda>t. t \<noteq> [] \<and> spec_kind_of_token t = None) (spec_tokens v)"

definition warn_unknown :: "string \<Rightarrow> effect" where
  "warn_unknown t = JANUS_LOG LOG_WARN ''Unknown event type '%s'\<newline>'' [Arg_str t]"

subsection \<open>A concrete host\<close>

text \<open>A configuration file with the one category \<open>general\<close>, and a host whose parser
  finds that file whatever the path, whose truth test is the one of the host's utilities
  (\<open>yes\<close>, \<open>true\<close> or \<open>1\<close>, without regard to case), and whose thread start fails with
  the given error, if any.\<close>

definition general_config :: "(string \<times> string) list \<Rightarrow> janus_config" where
  "general_config items category name =
     (if category = ''general''
      then map_option (\<lambda>v. \<lparr>item_value = Some v\<rparr>) (map_of items name)
      else None)"

definition host_env :: "(string \<times> string) list \<Rightarrow> gerror option \<Rightarrow> init_env" where
  "host_env items thread_error =
     \<lparr>janus_config_parse = (\<lambda>filename. Some (general_config items)),
      janus_is_true = (\<lambda>v. strcasecmp v ''yes'' = 0 \<or> strcasecmp v ''true'' = 0
                            \<or> strcasecmp v ''1'' = 0),
      g_thread_try_new = thread_error\<rparr>"

text \<open>A backend that answers: the clock stands at 5000, every POST succeeds.\<close>

definition backend_up :: handler_env where
  "backend_up =
     \<lparr>janus_get_monotonic_time = (\<lambda>_. 5000), json_dumps = (\<lambda>_. Some ''{}''),
      curl_easy_init = (\<lambda>_. True), curl_easy_perform = (\<lambda>_. CURLE_OK),
      curl_easy_strerror = (\<lambda>_. ''No error'')\<rparr>"

text \<open>The effects of a call: what the trace has gained between two states.\<close>

definition effects_since :: "state \<Rightarrow> state \<Rightarrow> effect list" where
  "effects_since st st' = drop (length (trace st)) (trace st')"

text \<open>What the JSON library calls a number: an integer or a real.\<close>

fun json_is_number :: "json \<Rightarrow> bool" where
  "json_is_number (Json_integer _) = True"
| "json_is_number (Json_real _) = True"
| "json_is_number _ = False"

definition delay_format :: string where
  "delay_format = ''Handled event after %lu us\<newline>''"

text \<open>The plugin up, with event objects that carry the given \<open>timestamp\<close>.\<close>

definition stamped :: "json \<Rightarrow> state" where
  "stamped j = running_state\<lparr>objects := (\<lambda>_. Json_object [(''timestamp'', j), (''a'', Json_integer 1)])\<rparr>"

subsection \<open>The lifecycle flags along a trace\<close>

text \<open>The pair (initialized, stopping) after one more effect, and the changes of the pair
  along a list of effects, in order.\<close>

fun flags_after :: "bool \<times> bool \<Rightarrow> effect \<Rightarrow> bool \<times> bool" where
  "flags_after (i, s) (Atomic_set_initialized v) = (v, s)"
| "flags_after (i, s) (Atomic_set_stopping v) = (i, v)"
| "flags_after p _ = p"

fun flag_transitions :: "bool \<times> bool \<Rightarrow> effect list \<Rightarrow> ((bool \<times> bool) \<times> (bool \<times> bool)) list" where
  "flag_transitions p [] = []"
| "flag_transitions p (e # es) =
     (if flags_after p e = p then [] else [(p, flags_after p e)])
     @ flag_transitions (flags_after p e) es"

definition transitions_between :: "state \<Rightarrow> state \<Rightarrow> ((bool \<times> bool) \<times> (bool \<times> bool)) list" where
  "transitions_between st st' =
     flag_transitions (initialized st, stopping st) (effects_since st st')"

text \<open>An effect that neither writes a lifecycle flag nor starts a thread.\<close>

fun quiet :: "effect \<Rightarrow> bool" where
  "quiet (Atomic_set_initialized _) = False"
| "quiet (Atomic_set_stopping _) = False"
| "quiet (G_thread_try_new _) = False"
| "quiet _ = True"

definition quiet_from :: "effect list \<Rightarrow> effect list \<Rightarrow> bool" where
  "quiet_from t t' \<longleftrightarrow> (\<exists>xs. t' = t @ xs \<and> list_all quiet xs)"

text \<open>The entries of a queue that the destroy notifier releases.\<close>

definition releases :: "json_ptr list \<Rightarrow> effect list" where
  "releases q = map Json_decref (filter (\<lambda>e. e \<noteq> NULL \<and> e \<noteq> Exit_event) q)"

subsection \<open>The configuration, as the specification words it\<close>

text \<open>The plugin is enabled when \<open>general.enabled\<close> is there with a value the host
  takes for true; the backend is valid when \<open>general.backend\<close> is there with a value
  that begins with \<open>http\<close>.\<close>

definition spec_enabled :: "init_env \<Rightarrow> janus_config \<Rightarrow> bool" where
  "spec_enabled env c =
     (case c ''general'' ''enabled'' of
        None \<Rightarrow> False
      | Some it \<Rightarrow> (case item_value it of None \<Rightarrow> False | Some v \<Rightarrow> janus_is_true env v))"

definition spec_backend_valid :: "janus_config \<Rightarrow> bool" where
  "spec_backend_valid c =
     (case c ''general'' ''backend'' of
        None \<Rightarrow> False
      | Some it \<Rightarrow> (case item_value it of None \<Rightarrow> False | Some v \<Rightarrow> prefix ''http'' v))"

definition backend_url :: "janus_config \<Rightarrow> string" where
  "backend_url c =
     (case c ''general'' ''backend'' of
        None \<Rightarrow> []
      | Some it \<Rightarrow> (case item_value it of None \<Rightarrow> [] | Some v \<Rightarrow> v))"

text \<open>The mask after the \<open>events\<close> item has been read, and the warnings logged on the
  way: no item or no value leaves the mask, \<open>none\<close> clears it, \<open>all\<close> fills it, a list
  adds the kinds it names.\<close>

definition spec_mask_after :: "janus_config_item option \<Rightarrow> janus_flags \<Rightarrow> janus_flags" where
  "spec_mask_after item flags =
     (case item of
        None \<Rightarrow> flags
      | Some it \<Rightarrow>
          (case item_value it of
             None \<Rightarrow> flags
           | Some v \<Rightarrow>
               if map tolower v = ''none'' then {}
               else if map tolower v = ''all'' then flags \<union> JANUS_EVENT_TYPE_ALL
               else flags \<union> spec_listed_kinds v))"

definition spec_warnings :: "janus_config_item option \<Rightarrow> effect list" where
  "spec_warnings item =
     (case item of
        None \<Rightarrow> []
      | Some it \<Rightarrow>
          (case item_value it of
             None \<Rightarrow> []
           | Some v \<Rightarrow>
               if map tolower v = ''none'' \<or> map tolower v = ''all'' then []
               else map warn_unknown (spec_unknown_tokens v)))"

text \<open>The effects of init up to the end of the configuration, when the plugin is
  enabled and when it is not.\<close>

definition configured_effects :: "string \<Rightarrow> janus_config \<Rightarrow> effect list" where
  "configured_effects path c =
     [JANUS_LOG LOG_VERB ''Configuration file: %s\<newline>'' [Arg_str (config_filename path)],
      Janus_config_print, G_strdup (backend_url c)]
     @ spec_warnings (c ''general'' ''events'')
     @ [Janus_config_destroy,
        JANUS_LOG LOG_VERB ''Sample event handler configured: %s\<newline>'' [Arg_str (backend_url c)]]"

definition refused_effects :: "init_env \<Rightarrow> string \<Rightarrow> effect list" where
  "refused_effects env path =
     JANUS_LOG LOG_VERB ''Configuration file: %s\<newline>'' [Arg_str (config_filename path)]
     # (case janus_config_parse env (config_filename path) of
          None \<Rightarrow> []
        | Some c \<Rightarrow>
            [Janus_config_print,
             if spec_enabled env c
             then JANUS_LOG LOG_WARN ''Missing or invalid backend\<newline>'' []
             else JANUS_LOG LOG_WARN ''Sample event handler disabled (Janus API)\<newline>'' []])
     @ [Janus_config_destroy,
        JANUS_LOG LOG_FATAL ''Sample event handler not enabled/needed, giving up...\<newline>'' []]"

text \<open>The effects of lines 183 to 200, by the outcome of the thread start.\<close>

definition started_effects :: "effect list" where
  "started_effects =
     [Curl_global_init, G_async_queue_new_full, Atomic_set_initialized True,
      G_thread_try_new True,
      JANUS_LOG LOG_INFO ''%s initialized!\<newline>'' [Arg_str JANUS_SAMPLEEVH_NAME]]"

definition start_failed_effects :: "gerror \<Rightarrow> effect list" where
  "start_failed_effects error =
     [Curl_global_init, G_async_queue_new_full, Atomic_set_initialized True,
      G_thread_try_new False, Atomic_set_initialized False,
      JANUS_LOG LOG_ERR
        ''Got error %d (%s) trying to launch the SampleEventHandler handler thread...\<newline>''
        [Arg_int (error_code error),
         Arg_str (case error_message error of Some m \<Rightarrow> m | None \<Rightarrow> ''??'')]]"

text \<open>The effects of lines 217 to 221, the end of destroy.\<close>

definition destroyed_effects :: "string alloc \<Rightarrow> effect list" where
  "destroyed_effects b =
     [G_free_backend b, Atomic_set_initialized False, Atomic_set_stopping False,
      JANUS_LOG LOG_INFO ''%s destroyed!\<newline>'' [Arg_str JANUS_SAMPLEEVH_NAME]]"

text \<open>A configuration that enables the plugin, with the given backend and events.\<close>

definition enabled_items :: "string \<Rightarrow> string \<Rightarrow> (string \<times> string) list" where
  "enabled_items url evs = [(''enabled'', ''yes''), (''backend'', url), (''events'', evs)]"

definition thread_error :: gerror where
  "thread_error = \<lparr>error_code = 11, error_message = Some ''Resource temporarily unavailable''\<rparr>"

text \<open>The state after destroy has run on \<open>running_state\<close> with the thread inside the pop.\<close>

definition stopped_state :: state where
  "stopped_state = running_state\<lparr>initialized := False, stopping := False, handler_thread := False,
     events := None, backend := Freed,
     trace := [Atomic_set_stopping True,
               JANUS_LOG LOG_VERB ''Leaving SampleEventHandler handler thread\<newline>'' [],
               G_thread_join, G_async_queue_unref] @ destroyed_effects (Live ''http://x'')\<rparr>"

text \<open>The queue exists whenever the plugin is up and not stopping.\<close>

definition queue_ready :: "state \<Rightarrow> bool" where
  "queue_ready st \<longleftrightarrow> (initialized st \<and> \<not> stopping st \<longrightarrow> events st \<noteq> None)"

text \<open>Init accepts the configuration: the plugin is not stopping, there is a path, the
  file is parsed, the plugin is enabled in it and the backend is valid. This is when
  init goes on to line 181.\<close>

definition config_accepted :: "init_env \<Rightarrow> string option \<Rightarrow> state \<Rightarrow> bool" where
  "config_accepted env config_path st =
     (\<not> stopping st \<and>
      (case config_path of
         None \<Rightarrow> False
       | Some path \<Rightarrow>
           (case janus_config_parse env (config_filename path) of
              None \<Rightarrow> False
            | Some c \<Rightarrow> spec_enabled env c \<and> spec_backend_valid c)))"

text \<open>The pair (initialized, stopping) that a list of effects leaves.\<close>

definition flags_along :: "bool \<times> bool \<Rightarrow> effect list \<Rightarrow> bool \<times> bool" where
  "flags_along p es = foldl flags_after p es"

text \<open>
  How far the thread gets when it runs alone from where it stands: the state in which it
  has returned, or in which it waits on the empty queue or spins on the null queue for
  ever. It is \<open>handler_run\<close> with the last state in the place of \<open>None\<close>.
\<close>

function handler_far :: "handler_env \<Rightarrow> handler_pc \<Rightarrow> state \<Rightarrow> state" where
  "handler_far env At_entry st =
     handler_far env At_while
       (emit (JANUS_LOG LOG_VERB ''Joining SampleEventHandler handler thread\<newline>'' []) st)"
| "handler_far env At_while st =
     (if initialized st \<and> \<not> stopping st then handler_far env In_pop st
      else leave_handler st)"
| "handler_far env In_pop st =
     (case events st of
        None \<Rightarrow> if initialized st \<and> \<not> stopping st then st else leave_handler st
      | Some [] \<Rightarrow> st
      | Some (event # q) \<Rightarrow>
          (case event of
             NULL \<Rightarrow> handler_far env At_while (st\<lparr>events := Some q\<rparr>)
           | Exit_event \<Rightarrow> leave_handler (st\<lparr>events := Some q\<rparr>)
           | Event n \<Rightarrow> handler_far env At_while (handle_event env n (st\<lparr>events := Some q\<rparr>))))"
  by pat_completeness auto
termination
  by (relation "measure (\<lambda>(env, pc, st).
        (case events st of None \<Rightarrow> 0 | Some q \<Rightarrow> 3 * length q)
        + (case pc of At_entry \<Rightarrow> 2 | At_while \<Rightarrow> 1 | In_pop \<Rightarrow> 0))")
     (auto simp: emit_def handle_event_def send_event_def log_delay_def Let_def
           split: option.splits)

section \<open>Basic facts\<close>

lemma events_emit [simp]: "events (emit e st) = events st"
  by (simp add: emit_def)

lemma trace_emit [simp]: "trace (emit e st) = trace st @ [e]"
  by (simp add: emit_def)

lemma flags_emit [simp]:
  "initialized (emit e st) = initialized st" "stopping (emit e st) = stopping st"
  by (simp_all add: emit_def)

lemma other_fields_emit [simp]:
  "handler_thread (emit e st) = handler_thread st" "backend (emit e st) = backend st"
  "events_mask (emit e st) = events_mask st" "objects (emit e st) = objects st"
  by (simp_all add: emit_def)

section \<open>Ingress\<close>

text \<open>
  C1. A call of the ingress callback either drops or enqueues. When \<open>stopping\<close> is set
  or \<open>initialized\<close> is clear, the only thing that happens is one \<open>json_decref\<close> of the
  event: the queue and every other variable stay as they were. Otherwise, for a non-null
  event and an existing queue, the only things that happen are one \<open>json_incref\<close> of the
  event and its push at the back of the queue: no log line, no libcurl call. In both
  cases the result does not depend on what the event objects contain.
\<close>

theorem incoming_event_drops_or_enqueues:
  "(stopping st \<or> \<not> initialized st \<longrightarrow>
      janus_sampleevh_incoming_event event st = st\<lparr>trace := trace st @ [Json_decref event]\<rparr>)
   \<and> (\<not> stopping st \<and> initialized st \<and> event \<noteq> NULL \<and> events st = Some q \<longrightarrow>
      janus_sampleevh_incoming_event event st
        = st\<lparr>events := Some (q @ [event]), trace := trace st @ [Json_incref event]\<rparr>)
   \<and> janus_sampleevh_incoming_event event (st\<lparr>objects := contents\<rparr>)
        = (janus_sampleevh_incoming_event event st)\<lparr>objects := contents\<rparr>"
  by (simp add: janus_sampleevh_incoming_event_def g_async_queue_push_def emit_def
           split: option.splits)

theorem incoming_event_drops_or_enqueues_witness:
  "janus_sampleevh_incoming_event (Event 7) initial_state
     = initial_state\<lparr>trace := [Json_decref (Event 7)]\<rparr>
   \<and> janus_sampleevh_incoming_event (Event 7) (running_state\<lparr>stopping := True\<rparr>)
     = running_state\<lparr>stopping := True, trace := [Json_decref (Event 7)]\<rparr>
   \<and> janus_sampleevh_incoming_event (Event 7) running_state
     = running_state\<lparr>events := Some [Event 7], trace := [Json_incref (Event 7)]\<rparr>"
  using incoming_event_drops_or_enqueues [of initial_state "Event 7" "[]" "\<lambda>_. Json_null"]
        incoming_event_drops_or_enqueues [of "running_state\<lparr>stopping := True\<rparr>" "Event 7" "[]" "\<lambda>_. Json_null"]
        incoming_event_drops_or_enqueues [of running_state "Event 7" "[]" "\<lambda>_. Json_null"]
  by (simp add: initial_state_def running_state_def)

section \<open>The events list\<close>

lemma lower_names:
  "map tolower ''sessions'' = ''sessions''" "map tolower ''handles'' = ''handles''"
  "map tolower ''jsep'' = ''jsep''" "map tolower ''webrtc'' = ''webrtc''"
  "map tolower ''media'' = ''media''" "map tolower ''plugins'' = ''plugins''"
  "map tolower ''transports'' = ''transports''"
  "map tolower ''none'' = ''none''" "map tolower ''all'' = ''all''"
  by code_simp+

lemma strcasecmp_0: "strcasecmp a b = 0 \<longleftrightarrow> map tolower a = map tolower b"
  by (simp add: strcasecmp_def)

lemma spec_kind_of_token_Nil: "spec_kind_of_token [] = None"
  by (simp add: spec_kind_of_token_def spec_event_table_def)

lemma subscribe_one_eq:
  "subscribe_one index st =
     (if index = [] then st
      else (case spec_kind_of_token index of
              Some k \<Rightarrow> st\<lparr>events_mask := events_mask st \<union> {k}\<rparr>
            | None \<Rightarrow> emit (warn_unknown index) st))"
proof -
  define l where "l = map tolower index"
  show ?thesis
    unfolding subscribe_one_def strcasecmp_0 lower_names spec_kind_of_token_def l_def [symmetric]
    by (simp add: spec_event_table_def
          set_events_mask_def janus_flags_set_def warn_unknown_def
          JANUS_EVENT_TYPE_SESSION_def JANUS_EVENT_TYPE_HANDLE_def JANUS_EVENT_TYPE_JSEP_def
          JANUS_EVENT_TYPE_WEBRTC_def JANUS_EVENT_TYPE_MEDIA_def JANUS_EVENT_TYPE_PLUGIN_def
          JANUS_EVENT_TYPE_TRANSPORT_def)
qed

lemma fold_subscribe_one:
  "fold subscribe_one ts st =
     st\<lparr>events_mask := events_mask st \<union> set (List.map_filter spec_kind_of_token ts),
        trace := trace st
          @ map warn_unknown (filter (\<lambda>t. t \<noteq> [] \<and> spec_kind_of_token t = None) ts)\<rparr>"
proof (induction ts arbitrary: st)
  case Nil
  show ?case by (simp add: List.map_filter_simps)
next
  case (Cons t ts)
  have "fold subscribe_one (t # ts) st = fold subscribe_one ts (subscribe_one t st)"
    by simp
  also have "\<dots> = (subscribe_one t st)
      \<lparr>events_mask := events_mask (subscribe_one t st) \<union> set (List.map_filter spec_kind_of_token ts),
       trace := trace (subscribe_one t st)
          @ map warn_unknown (filter (\<lambda>t. t \<noteq> [] \<and> spec_kind_of_token t = None) ts)\<rparr>"
    by (rule Cons.IH)
  also have "\<dots> = st
      \<lparr>events_mask := events_mask st \<union> set (List.map_filter spec_kind_of_token (t # ts)),
       trace := trace st
          @ map warn_unknown (filter (\<lambda>t. t \<noteq> [] \<and> spec_kind_of_token t = None) (t # ts))\<rparr>"
  proof (cases "t = []")
    case True
    then show ?thesis
      by (simp add: subscribe_one_eq List.map_filter_simps spec_kind_of_token_Nil)
  next
    case False
    then show ?thesis
      by (cases "spec_kind_of_token t")
         (simp_all add: subscribe_one_eq List.map_filter_simps emit_def)
  qed
  finally show ?case .
qed

lemma subscribe_loop_fold:
  "subscribe_loop ps st = fold subscribe_one (map (dropWhile isspace) ps) st"
  by (induction ps arbitrary: st) simp_all

lemma subscribe_loop_spec:
  "subscribe_loop (g_strsplit v CHR '','') st =
     st\<lparr>events_mask := events_mask st \<union> spec_listed_kinds v,
        trace := trace st @ map warn_unknown (spec_unknown_tokens v)\<rparr>"
  by (simp only: subscribe_loop_fold fold_subscribe_one spec_listed_kinds_def
        spec_unknown_tokens_def spec_tokens_def)

lemma s3_tokens: "spec_tokens ''sessions, handles , foo'' = [''sessions'', ''handles '', ''foo'']"
  by (simp add: spec_tokens_def g_strsplit_def isspace_def)

lemma s3_kinds:
  "spec_kind_of_token ''sessions'' = Some Session"
  "spec_kind_of_token ''handles '' = None"
  "spec_kind_of_token ''foo'' = None"
  by code_simp+

lemma s3_not_none_all:
  "strcasecmp ''sessions, handles , foo'' ''none'' \<noteq> 0"
  "strcasecmp ''sessions, handles , foo'' ''all'' \<noteq> 0"
  by code_simp+

text \<open>
  C2, as the code has it. A value of \<open>general.events\<close> that is neither \<open>none\<close> nor
  \<open>all\<close> (without regard to case) is cut at the commas; each piece has its leading white
  space skipped (white space at its end stays part of the token) and is looked up, without
  regard to case, in the table of the seven names. The kinds found are added to the mask,
  in the order of the list one warning is logged for every token that is neither empty
  nor in the table, and nothing else changes. For \<open>sessions, handles , foo\<close> the mask
  gains the kind session only, and the warnings are for \<open>handles \<close> (with its trailing
  blank) and for \<open>foo\<close>.
\<close>

theorem events_list_sets_named_kinds:
  assumes "strcasecmp v ''none'' \<noteq> 0" and "strcasecmp v ''all'' \<noteq> 0"
  shows "subscribe_events (Some \<lparr>item_value = Some v\<rparr>) st =
     st\<lparr>events_mask := events_mask st \<union> spec_listed_kinds v,
        trace := trace st @ map warn_unknown (spec_unknown_tokens v)\<rparr>"
  using assms by (simp add: subscribe_events_def subscribe_loop_spec)

theorem events_list_sets_named_kinds_witness:
  "strcasecmp ''sessions, handles , foo'' ''none'' \<noteq> 0
   \<and> strcasecmp ''sessions, handles , foo'' ''all'' \<noteq> 0
   \<and> subscribe_events (Some \<lparr>item_value = Some ''sessions, handles , foo''\<rparr>) initial_state =
       initial_state\<lparr>events_mask := {Session},
          trace := [warn_unknown ''handles '', warn_unknown ''foo'']\<rparr>"
  using events_list_sets_named_kinds [OF s3_not_none_all, of initial_state]
  by (simp add: s3_not_none_all spec_listed_kinds_def spec_unknown_tokens_def s3_tokens s3_kinds
        List.map_filter_simps initial_state_def JANUS_EVENT_TYPE_NONE_def)

text \<open>The scenario of the specification: the token \<open>handles \<close> keeps its trailing
  blank, is not found in the table, and the kind handle is not subscribed.\<close>

theorem events_list_trailing_blank_counterexample:
  "events_mask (subscribe_events (Some \<lparr>item_value = Some ''sessions, handles , foo''\<rparr>) initial_state)
     = {Session}
   \<and> events_mask (subscribe_events (Some \<lparr>item_value = Some ''sessions, handles , foo''\<rparr>) initial_state)
     \<noteq> {Session, Handle}
   \<and> trace (subscribe_events (Some \<lparr>item_value = Some ''sessions, handles , foo''\<rparr>) initial_state)
     = [warn_unknown ''handles '', warn_unknown ''foo'']"
  by (simp add: subscribe_events_def s3_not_none_all subscribe_loop_spec
        spec_listed_kinds_def spec_unknown_tokens_def s3_tokens s3_kinds
        List.map_filter_simps initial_state_def JANUS_EVENT_TYPE_NONE_def)

section \<open>The forwarder thread\<close>

lemma effects_sinceI: "trace st' = trace st @ xs \<Longrightarrow> effects_since st st' = xs"
  by (simp add: effects_since_def)

lemma send_event_eq:
  "send_event env n st =
     st\<lparr>trace := trace st @
        (let ok = curl_easy_init env (trace st);
             res = curl_easy_perform env (trace st @ [Curl_easy_init ok])
         in Curl_easy_init ok #
            (if ok then
               [Curl_easy_perform (backend st) request_headers (json_dumps env (objects st n)) res,
                if res \<noteq> CURLE_OK
                then JANUS_LOG LOG_ERR ''Couldn't relay event to the backend: %s\<newline>''
                       [Arg_str (curl_easy_strerror env res)]
                else JANUS_LOG LOG_DBG ''Event sent!\<newline>'' []]
             else [JANUS_LOG LOG_ERR ''Error initializing CURL context\<newline>'' []]))\<rparr>"
  by (simp add: send_event_def Let_def emit_def)

lemma log_delay_integer:
  "json_object_get (objects st n) ''timestamp'' = Some (Json_integer v) \<Longrightarrow>
   log_delay env n st =
     emit (JANUS_LOG LOG_DBG delay_format [Arg_u64 (janus_get_monotonic_time env (trace st) - v)]) st"
  by (simp add: log_delay_def delay_format_def)

lemma log_delay_skip:
  "(\<And>v. json_object_get (objects st n) ''timestamp'' \<noteq> Some (Json_integer v)) \<Longrightarrow>
   log_delay env n st = st"
proof (cases "json_object_get (objects st n) ''timestamp''")
  case None
  then show ?thesis by (simp add: log_delay_def)
next
  case (Some c)
  assume "\<And>v. json_object_get (objects st n) ''timestamp'' \<noteq> Some (Json_integer v)"
  with Some have "\<not> json_is_integer c" by (cases c) auto
  with Some show ?thesis by (simp add: log_delay_def)
qed

lemma log_delay_frame:
  "initialized (log_delay env n st) = initialized st" "stopping (log_delay env n st) = stopping st"
  "events (log_delay env n st) = events st" "backend (log_delay env n st) = backend st"
  "objects (log_delay env n st) = objects st"
  by (simp_all add: log_delay_def Let_def split: option.splits)

lemma handle_event_frame:
  "initialized (handle_event env n st) = initialized st"
  "stopping (handle_event env n st) = stopping st"
  "events (handle_event env n st) = events st"
  "backend (handle_event env n st) = backend st"
  "objects (handle_event env n st) = objects st"
  "events_mask (handle_event env n st) = events_mask st"
  "handler_thread (handle_event env n st) = handler_thread st"
  by (simp_all add: handle_event_def send_event_def log_delay_def Let_def split: option.splits)

lemma leave_handler_eq:
  "leave_handler st =
     st\<lparr>trace := trace st @ [JANUS_LOG LOG_VERB ''Leaving SampleEventHandler handler thread\<newline>'' []]\<rparr>"
  by (simp add: leave_handler_def emit_def)


lemma uint_of_nonneg_sint:
  fixes w :: "64 word"
  assumes "0 \<le> sint w"
  shows "uint w = sint w"
proof -
  have "sint w < 2 ^ (LENGTH(64) - 1)"
    by (rule sint_lt)
  then have "sint w < 2 ^ 64"
    by simp
  with assms have "take_bit 64 (sint w) = sint w"
    by (rule take_bit_int_eq_self)
  moreover have "uint w = take_bit LENGTH(64) (sint w)"
    by (rule uint_sint)
  ultimately show ?thesis
    by simp
qed

lemma unat_signed_difference:
  fixes now v :: "64 word"
  assumes "0 \<le>s v" and "v \<le>s now"
  shows "unat (now - v) = nat (sint now - sint v)"
proof -
  from assms have v0: "0 \<le> sint v" and le: "sint v \<le> sint now"
    by (simp_all only: word_sle_eq sint_0)
  from v0 have sv: "uint v = sint v"
    by (rule uint_of_nonneg_sint)
  from v0 le have "0 \<le> sint now"
    by simp
  then have sn: "uint now = sint now"
    by (rule uint_of_nonneg_sint)
  from le sv sn have "uint v \<le> uint now"
    by simp
  then have "v \<le> now"
    by (simp only: word_le_def)
  then have "unat (now - v) = unat now - unat v"
    by (rule unat_sub)
  also have "\<dots> = nat (uint now - uint v)"
    by (simp only: unat_eq_nat_uint nat_diff_distrib' uint_ge_0)
  finally show ?thesis
    by (simp only: sv sn)
qed





text \<open>
  C8, as the code has it. When the \<open>timestamp\<close> member of the event is a JSON integer,
  one debug line is logged with the clock minus the timestamp, a 64-bit difference printed
  as unsigned: the true difference in microseconds when the timestamp is not negative and
  not after the clock. When the member is missing or is anything but a JSON integer (a
  JSON real included), nothing is logged and the event is sent and released as usual.
\<close>

theorem delay_logged_for_integer_timestamp:
  "(json_object_get (objects st n) ''timestamp'' = Some (Json_integer v) \<longrightarrow>
      log_delay env n st =
        emit (JANUS_LOG LOG_DBG delay_format
                [Arg_u64 (janus_get_monotonic_time env (trace st) - v)]) st)
   \<and> ((\<forall>i. json_object_get (objects st n) ''timestamp'' \<noteq> Some (Json_integer i)) \<longrightarrow>
      log_delay env n st = st
      \<and> handle_event env n st =
          emit (Json_decref (Event n))
            (emit G_free_text (emit Curl_easy_cleanup (send_event env n st))))
   \<and> (0 \<le>s v \<and> v \<le>s janus_get_monotonic_time env (trace st) \<longrightarrow>
      unat (janus_get_monotonic_time env (trace st) - v)
        = nat (sint (janus_get_monotonic_time env (trace st)) - sint v))"
proof (intro conjI impI)
  assume "json_object_get (objects st n) ''timestamp'' = Some (Json_integer v)"
  then show "log_delay env n st =
        emit (JANUS_LOG LOG_DBG delay_format
                [Arg_u64 (janus_get_monotonic_time env (trace st) - v)]) st"
    by (rule log_delay_integer)
next
  assume "\<forall>i. json_object_get (objects st n) ''timestamp'' \<noteq> Some (Json_integer i)"
  then show "log_delay env n st = st"
    by (simp add: log_delay_skip)
next
  assume "\<forall>i. json_object_get (objects st n) ''timestamp'' \<noteq> Some (Json_integer i)"
  then have "log_delay env n st = st"
    by (simp add: log_delay_skip)
  then show "handle_event env n st =
          emit (Json_decref (Event n))
            (emit G_free_text (emit Curl_easy_cleanup (send_event env n st)))"
    by (simp add: handle_event_def)
next
  assume "0 \<le>s v \<and> v \<le>s janus_get_monotonic_time env (trace st)"
  then show "unat (janus_get_monotonic_time env (trace st) - v)
        = nat (sint (janus_get_monotonic_time env (trace st)) - sint v)"
    by (simp add: unat_signed_difference)
qed


theorem delay_logged_for_integer_timestamp_witness:
  "log_delay backend_up 1 (stamped (Json_integer 1000))
     = (stamped (Json_integer 1000))\<lparr>trace := [JANUS_LOG LOG_DBG delay_format [Arg_u64 4000]]\<rparr>
   \<and> log_delay backend_up 1 (stamped (Json_string ''1000'')) = stamped (Json_string ''1000'')
   \<and> log_delay backend_up 1 running_state = running_state
   \<and> unat (5000 - 1000 :: 64 word) = nat (sint (5000 :: 64 word) - sint (1000 :: 64 word))"
  using delay_logged_for_integer_timestamp [of "stamped (Json_integer 1000)" 1 1000 backend_up]
        delay_logged_for_integer_timestamp [of "stamped (Json_string ''1000'')" 1 1000 backend_up]
        delay_logged_for_integer_timestamp [of running_state 1 1000 backend_up]
  by (simp add: stamped_def running_state_def initial_state_def backend_up_def emit_def word_sle_eq)

text \<open>A timestamp that is a JSON real is a number, and no line is logged for it.\<close>

theorem real_timestamp_counterexample:
  "json_object_get (objects (stamped (Json_real (3 / 2))) 1) ''timestamp'' = Some (Json_real (3 / 2))
   \<and> json_is_number (Json_real (3 / 2))
   \<and> log_delay backend_up 1 (stamped (Json_real (3 / 2))) = stamped (Json_real (3 / 2))"
  by (simp add: stamped_def log_delay_def)

section \<open>The queue's destruction\<close>

lemma fold_event_free:
  "fold janus_sampleevh_event_free xs st = st\<lparr>trace := trace st @ releases xs\<rparr>"
proof (induction xs arbitrary: st)
  case Nil
  show ?case by (simp add: releases_def)
next
  case (Cons x xs)
  show ?case
    by (simp add: Cons.IH) (simp add: janus_sampleevh_event_free_def emit_def releases_def)
qed

lemma g_async_queue_unref_eq:
  "g_async_queue_unref st =
     st\<lparr>trace := trace st
        @ (case events st of None \<Rightarrow> [] | Some q \<Rightarrow> releases (rev q) @ [G_async_queue_unref])\<rparr>"
  by (simp add: g_async_queue_unref_def fold_event_free emit_def split: option.splits)

lemma count_releases:
  "count_list (releases xs) (Json_decref e)
     = (if e = NULL \<or> e = Exit_event then 0 else count_list xs e)"
  by (induction xs) (auto simp: releases_def)

lemma finish_destroy_eq:
  "finish_destroy st =
     st\<lparr>initialized := False, stopping := False, events := None,
        backend := (case backend st of Live _ \<Rightarrow> Freed | b \<Rightarrow> b),
        trace := trace st
          @ (case events st of None \<Rightarrow> [] | Some q \<Rightarrow> releases (rev q) @ [G_async_queue_unref])
          @ destroyed_effects (backend st)\<rparr>"
  by (simp add: finish_destroy_def g_async_queue_unref_eq g_free_backend_def emit_def
        g_atomic_int_set_initialized_def g_atomic_int_set_stopping_def destroyed_effects_def
        Let_def)

text \<open>
  C6. When \<open>g_async_queue_unref\<close> destroys the queue, the notifier runs once on every
  entry left: the effects are one \<open>json_decref\<close> for every entry that is an event (as many
  as the event has entries in the queue) and none for the sentinel or for null, on which
  the notifier does nothing. In destroy this is all that happens to the entries: what
  follows is the release of the backend string, the two flag writes and the log line.
\<close>

theorem queue_destroy_releases_each_event_once:
  assumes "events st = Some q"
  shows "effects_since st (g_async_queue_unref st) = releases (rev q) @ [G_async_queue_unref]
         \<and> count_list (effects_since st (g_async_queue_unref st)) (Json_decref e)
           = (if e = NULL \<or> e = Exit_event then 0 else count_list q e)
         \<and> janus_sampleevh_event_free Exit_event st = st
         \<and> janus_sampleevh_event_free NULL st = st
         \<and> effects_since st (finish_destroy st)
           = releases (rev q) @ [G_async_queue_unref] @ destroyed_effects (backend st)"
proof -
  have eff: "effects_since st (g_async_queue_unref st) = releases (rev q) @ [G_async_queue_unref]"
    by (rule effects_sinceI) (simp add: g_async_queue_unref_eq assms)
  have "count_list (effects_since st (g_async_queue_unref st)) (Json_decref e)
           = (if e = NULL \<or> e = Exit_event then 0 else count_list (rev q) e)"
    by (simp only: eff count_list_append count_releases) simp
  then have cnt: "count_list (effects_since st (g_async_queue_unref st)) (Json_decref e)
           = (if e = NULL \<or> e = Exit_event then 0 else count_list q e)"
    by simp
  have noop: "janus_sampleevh_event_free Exit_event st = st" "janus_sampleevh_event_free NULL st = st"
    by (simp_all add: janus_sampleevh_event_free_def)
  have fin: "effects_since st (finish_destroy st)
           = releases (rev q) @ [G_async_queue_unref] @ destroyed_effects (backend st)"
    by (rule effects_sinceI) (simp add: finish_destroy_eq assms)
  from eff cnt noop fin show ?thesis
    by (intro conjI)
qed

theorem queue_destroy_releases_each_event_once_witness:
  "effects_since (running_state\<lparr>events := Some [Event 1, Event 2, Exit_event, Event 1]\<rparr>)
     (g_async_queue_unref (running_state\<lparr>events := Some [Event 1, Event 2, Exit_event, Event 1]\<rparr>))
     = [Json_decref (Event 1), Json_decref (Event 2), Json_decref (Event 1), G_async_queue_unref]
   \<and> count_list (effects_since (running_state\<lparr>events := Some [Event 1, Event 2, Exit_event, Event 1]\<rparr>)
     (g_async_queue_unref (running_state\<lparr>events := Some [Event 1, Event 2, Exit_event, Event 1]\<rparr>)))
       (Json_decref (Event 1)) = 2"
  using queue_destroy_releases_each_event_once
    [of "running_state\<lparr>events := Some [Event 1, Event 2, Exit_event, Event 1]\<rparr>"
        "[Event 1, Event 2, Exit_event, Event 1]" "Event 1"]
  by (simp add: releases_def)

section \<open>Quiet effects and the frame of the thread\<close>

lemma quiet_from_refl [simp]: "quiet_from t t"
  by (simp add: quiet_from_def)

lemma quiet_from_trans: "quiet_from a b \<Longrightarrow> quiet_from b c \<Longrightarrow> quiet_from a c"
  by (auto simp: quiet_from_def)

lemma quiet_from_snoc: "quiet_from a b \<Longrightarrow> quiet e \<Longrightarrow> quiet_from a (b @ [e])"
  by (auto simp: quiet_from_def)

lemma quiet_from_append: "quiet_from a b \<Longrightarrow> list_all quiet xs \<Longrightarrow> quiet_from a (b @ xs)"
  by (auto simp: quiet_from_def)

lemma quiet_releases: "list_all quiet (releases q)"
  by (simp add: releases_def list_all_iff)

lemma transitions_quiet:
  "list_all quiet xs \<Longrightarrow> flag_transitions p (xs @ ys) = flag_transitions p ys"
proof (induction xs)
  case Nil
  show ?case by simp
next
  case (Cons x xs)
  then have "flags_after p x = p"
    by (cases p; cases x) simp_all
  with Cons show ?case by simp
qed

lemma transitions_quiet_only: "list_all quiet xs \<Longrightarrow> flag_transitions p xs = []"
  using transitions_quiet [of xs p "[]"] by simp

lemma log_delay_quiet: "quiet_from (trace st) (trace (log_delay env n st))"
  by (simp add: log_delay_def Let_def quiet_from_snoc split: option.splits)

lemma send_event_quiet: "quiet_from (trace st) (trace (send_event env n st))"
  by (simp add: send_event_eq Let_def quiet_from_def)

lemma handle_event_quiet: "quiet_from (trace st) (trace (handle_event env n st))"
proof -
  have "quiet_from (trace st) (trace (send_event env n (log_delay env n st)))"
    by (rule quiet_from_trans [OF log_delay_quiet send_event_quiet])
  then have "quiet_from (trace st) (trace (send_event env n (log_delay env n st))
      @ [Curl_easy_cleanup, G_free_text, Json_decref (Event n)])"
    by (rule quiet_from_append) simp
  then show ?thesis
    by (simp add: handle_event_def)
qed

lemma leave_handler_frame:
  "initialized (leave_handler st) = initialized st" "stopping (leave_handler st) = stopping st"
  "events (leave_handler st) = events st" "backend (leave_handler st) = backend st"
  "objects (leave_handler st) = objects st" "events_mask (leave_handler st) = events_mask st"
  "handler_thread (leave_handler st) = handler_thread st"
  by (simp_all add: leave_handler_def)

lemma leave_handler_quiet: "quiet_from t (trace st) \<Longrightarrow> quiet_from t (trace (leave_handler st))"
  by (simp add: leave_handler_def quiet_from_snoc)

lemma handler_run_frame:
  "handler_run env pc st = Some st' \<Longrightarrow>
     initialized st' = initialized st \<and> stopping st' = stopping st
     \<and> handler_thread st' = handler_thread st \<and> backend st' = backend st
     \<and> events_mask st' = events_mask st \<and> objects st' = objects st
     \<and> quiet_from (trace st) (trace st')"
proof (induction env pc st arbitrary: st' rule: handler_run.induct)
  case (1 env st)
  let ?st1 = "emit (JANUS_LOG LOG_VERB ''Joining SampleEventHandler handler thread\<newline>'' []) st"
  from "1.prems" have "handler_run env At_while ?st1 = Some st'"
    by (simp only: handler_run.simps(1))
  then have "initialized st' = initialized ?st1 \<and> stopping st' = stopping ?st1
     \<and> handler_thread st' = handler_thread ?st1 \<and> backend st' = backend ?st1
     \<and> events_mask st' = events_mask ?st1 \<and> objects st' = objects ?st1
     \<and> quiet_from (trace ?st1) (trace st')"
    by (rule "1.IH")
  moreover have "quiet_from (trace st) (trace ?st1)"
    by (simp add: quiet_from_snoc)
  ultimately show ?case
    by (auto intro: quiet_from_trans)
next
  case (2 env st)
  show ?case
  proof (cases "initialized st \<and> \<not> stopping st")
    case True
    with "2.prems" have "handler_run env In_pop st = Some st'"
      by (simp del: handler_run.simps(3))
    with True show ?thesis
      by (intro "2.IH")
  next
    case False
    with "2.prems" have "st' = leave_handler st"
      by auto
    then show ?thesis
      by (simp add: leave_handler_frame leave_handler_quiet)
  qed
next
  case (3 env st)
  show ?case
  proof (cases "events st")
    case None
    with "3.prems" have "st' = leave_handler st"
      by (auto split: if_splits)
    then show ?thesis
      by (simp add: leave_handler_frame leave_handler_quiet)
  next
    case (Some q)
    show ?thesis
    proof (cases q)
      case Nil
      with Some "3.prems" show ?thesis by simp
    next
      case (Cons event rest)
      show ?thesis
      proof (cases event)
        case NULL
        with Some Cons "3.prems" have "handler_run env At_while (st\<lparr>events := Some rest\<rparr>) = Some st'"
          by (simp del: handler_run.simps(2))
        from "3.IH"(1) [OF Some Cons NULL this] show ?thesis
          by simp
      next
        case Exit_event
        with Some Cons "3.prems" have "st' = leave_handler (st\<lparr>events := Some rest\<rparr>)"
          by auto
        then show ?thesis
          by (simp add: leave_handler_frame leave_handler_quiet)
      next
        case (Event n)
        let ?st1 = "handle_event env n (st\<lparr>events := Some rest\<rparr>)"
        from Event Some Cons "3.prems" have "handler_run env At_while ?st1 = Some st'"
          by (simp del: handler_run.simps(2))
        from "3.IH"(2) [OF Some Cons Event this]
        have "initialized st' = initialized st \<and> stopping st' = stopping st
          \<and> handler_thread st' = handler_thread st \<and> backend st' = backend st
          \<and> events_mask st' = events_mask st \<and> objects st' = objects st
          \<and> quiet_from (trace ?st1) (trace st')"
          by (simp add: handle_event_frame)
        moreover have "quiet_from (trace st) (trace ?st1)"
          using handle_event_quiet [of "st\<lparr>events := Some rest\<rparr>" env n] by simp
        ultimately show ?thesis
          by (auto intro: quiet_from_trans)
      qed
    qed
  qed
qed

lemma handler_run_stopping:
  assumes "stopping st" and "pc = In_pop \<longrightarrow> events st \<noteq> Some []"
  shows "\<exists>st'. handler_run env pc st = Some st'"
proof (cases pc)
  case At_entry
  with assms show ?thesis by simp
next
  case At_while
  with assms show ?thesis by simp
next
  case In_pop
  with assms show ?thesis
    by (auto simp: handle_event_frame split: option.splits list.splits json_ptr.splits)
qed

section \<open>Init, case by case\<close>

lemma strstr_prefix: "strstr s needle = Some 0 \<longleftrightarrow> prefix needle s"
  by (cases s) auto

lemma strcasecmp_none: "strcasecmp v ''none'' = 0 \<longleftrightarrow> map tolower v = ''none''"
  by (simp only: strcasecmp_0 lower_names)

lemma strcasecmp_all: "strcasecmp v ''all'' = 0 \<longleftrightarrow> map tolower v = ''all''"
  by (simp only: strcasecmp_0 lower_names)

lemma subscribe_events_eq:
  "subscribe_events item st =
     st\<lparr>events_mask := spec_mask_after item (events_mask st),
        trace := trace st @ spec_warnings item\<rparr>"
proof (cases item)
  case None
  then show ?thesis
    by (simp add: subscribe_events_def spec_mask_after_def spec_warnings_def)
next
  case (Some it)
  show ?thesis
  proof (cases "item_value it")
    case None
    with Some show ?thesis
      by (simp add: subscribe_events_def spec_mask_after_def spec_warnings_def)
  next
    case (Some v)
    with \<open>item = Some it\<close> show ?thesis
      unfolding subscribe_events_def spec_mask_after_def spec_warnings_def
        strcasecmp_none strcasecmp_all
      by (simp add: subscribe_loop_spec janus_flags_reset_def set_events_mask_def
            janus_flags_set_def)
  qed
qed

lemma quiet_warnings: "list_all quiet (map warn_unknown ts)"
  by (induction ts) (simp_all add: warn_unknown_def)

lemma quiet_spec_warnings: "list_all quiet (spec_warnings item)"
  unfolding spec_warnings_def
  by (simp add: quiet_warnings split: option.splits)

lemma read_config_None: "read_config env None st = (False, st)"
  by (simp add: read_config_def)


lemma enabled_test:
  "(c ''general'' ''enabled'' = None \<or> item_value (the (c ''general'' ''enabled'')) = None
     \<or> \<not> janus_is_true env (the (item_value (the (c ''general'' ''enabled'')))))
   \<longleftrightarrow> \<not> spec_enabled env c"
  by (simp add: spec_enabled_def split: option.splits)

lemma backend_test:
  "(c ''general'' ''backend'' = None \<or> item_value (the (c ''general'' ''backend'')) = None
     \<or> strstr (the (item_value (the (c ''general'' ''backend'')))) ''http'' \<noteq> Some 0)
   \<longleftrightarrow> \<not> spec_backend_valid c"
  by (simp add: spec_backend_valid_def strstr_prefix split: option.splits)

lemma backend_url_the:
  "spec_backend_valid c \<Longrightarrow> the (item_value (the (c ''general'' ''backend''))) = backend_url c"
  by (simp add: spec_backend_valid_def backend_url_def split: option.splits)

lemma read_config_Some:
  "read_config env (Some c) st =
     (if \<not> spec_enabled env c then
        (False, st\<lparr>trace := trace st @ [Janus_config_print,
           JANUS_LOG LOG_WARN ''Sample event handler disabled (Janus API)\<newline>'' []]\<rparr>)
      else if \<not> spec_backend_valid c then
        (False, st\<lparr>trace := trace st @ [Janus_config_print,
           JANUS_LOG LOG_WARN ''Missing or invalid backend\<newline>'' []]\<rparr>)
      else
        (True, st\<lparr>backend := Live (backend_url c),
              events_mask := spec_mask_after (c ''general'' ''events'') (events_mask st),
              trace := trace st @ [Janus_config_print, G_strdup (backend_url c)]
                 @ spec_warnings (c ''general'' ''events'')\<rparr>))"
  unfolding read_config_def janus_config_get_item_drilldown_def Let_def option.case
    enabled_test backend_test
  by (simp add: backend_url_the emit_def subscribe_events_eq)

lemma start_handler_eq:
  "start_handler env st =
     (case g_thread_try_new env of
        None \<Rightarrow> (0, st\<lparr>initialized := True, handler_thread := True, events := Some [],
                    trace := trace st @ started_effects\<rparr>)
      | Some error \<Rightarrow> (- 1, st\<lparr>initialized := False, handler_thread := False, events := Some [],
                    trace := trace st @ start_failed_effects error\<rparr>))"
  by (simp add: start_handler_def Let_def emit_def g_atomic_int_set_initialized_def
        started_effects_def start_failed_effects_def split: option.splits)

lemma init_stopping: "stopping st \<Longrightarrow> janus_sampleevh_init env config_path st = (- 1, st)"
  by (simp add: janus_sampleevh_init_def)

lemma init_no_path: "janus_sampleevh_init env None st = (- 1, st)"
  by (simp add: janus_sampleevh_init_def)

lemma init_refused:
  assumes "\<not> stopping st"
    and "\<forall>c. janus_config_parse env (config_filename path) = Some c
           \<longrightarrow> \<not> (spec_enabled env c \<and> spec_backend_valid c)"
  shows "janus_sampleevh_init env (Some path) st
           = (- 1, st\<lparr>trace := trace st @ refused_effects env path\<rparr>)"
proof (cases "janus_config_parse env (config_filename path)")
  case None
  with assms(1) show ?thesis
    by (simp add: janus_sampleevh_init_def read_config_None refused_effects_def emit_def)
next
  case (Some c)
  with assms(2) have "\<not> spec_enabled env c \<or> \<not> spec_backend_valid c"
    by simp
  with Some assms(1) show ?thesis
    by (auto simp: janus_sampleevh_init_def read_config_Some refused_effects_def emit_def)
qed

lemma init_configured:
  assumes "\<not> stopping st"
    and "janus_config_parse env (config_filename path) = Some c"
    and "spec_enabled env c" and "spec_backend_valid c"
  shows "janus_sampleevh_init env (Some path) st
           = start_handler env
               (st\<lparr>backend := Live (backend_url c),
                   events_mask := spec_mask_after (c ''general'' ''events'') (events_mask st),
                   trace := trace st @ configured_effects path c\<rparr>)"
  using assms
  by (simp add: janus_sampleevh_init_def read_config_Some configured_effects_def emit_def)

section \<open>Destroy and init\<close>

lemma destroy_not_initialized:
  "\<not> initialized st \<Longrightarrow> janus_sampleevh_destroy env pc st = Some st"
  by (simp add: janus_sampleevh_destroy_def)

lemma destroy_initialized:
  assumes "initialized st"
  shows "\<exists>w. list_all quiet w \<and>
     janus_sampleevh_destroy env pc st =
       Some (st\<lparr>initialized := False, stopping := False, handler_thread := False,
               events := None, backend := (case backend st of Live _ \<Rightarrow> Freed | b \<Rightarrow> b),
               trace := trace st @ Atomic_set_stopping True # w @ destroyed_effects (backend st)\<rparr>)"
proof -
  define st2 where "st2 = g_async_queue_push Exit_event (g_atomic_int_set_stopping True st)"
  have st2: "stopping st2" "events st2 \<noteq> Some []" "initialized st2"
    "handler_thread st2 = handler_thread st" "backend st2 = backend st"
    "events_mask st2 = events_mask st" "objects st2 = objects st"
    "trace st2 = trace st @ [Atomic_set_stopping True]"
    using assms
    by (simp_all add: st2_def g_async_queue_push_def g_atomic_int_set_stopping_def
          split: option.splits)
  have fin: "\<exists>w. list_all quiet w \<and> finish_destroy s =
       st\<lparr>initialized := False, stopping := False, handler_thread := False,
               events := None, backend := (case backend st of Live _ \<Rightarrow> Freed | b \<Rightarrow> b),
               trace := trace st @ Atomic_set_stopping True # w @ destroyed_effects (backend st)\<rparr>"
    if frame: "handler_thread s = False" "backend s = backend st"
      "events_mask s = events_mask st" "objects s = objects st"
      and tr: "quiet_from (trace st2) (trace s)" for s
  proof -
    from tr obtain xs where xs: "trace s = trace st2 @ xs" "list_all quiet xs"
      by (auto simp: quiet_from_def)
    let ?w = "xs @ (case events s of None \<Rightarrow> [] | Some q \<Rightarrow> releases (rev q) @ [G_async_queue_unref])"
    have "list_all quiet ?w"
      using xs(2) by (simp add: quiet_releases split: option.splits)
    moreover have "finish_destroy s =
       st\<lparr>initialized := False, stopping := False, handler_thread := False,
               events := None, backend := (case backend st of Live _ \<Rightarrow> Freed | b \<Rightarrow> b),
               trace := trace st @ Atomic_set_stopping True # ?w @ destroyed_effects (backend st)\<rparr>"
      by (rule state.equality) (simp_all add: finish_destroy_eq frame xs(1) st2(8))
    ultimately show ?thesis
      by blast
  qed
  show ?thesis
  proof (cases "handler_thread st")
    case False
    then have "janus_sampleevh_destroy env pc st = Some (finish_destroy st2)"
      using assms st2(4) by (simp add: janus_sampleevh_destroy_def st2_def Let_def)
    moreover have "\<exists>w. list_all quiet w \<and> finish_destroy st2 =
       st\<lparr>initialized := False, stopping := False, handler_thread := False,
               events := None, backend := (case backend st of Live _ \<Rightarrow> Freed | b \<Rightarrow> b),
               trace := trace st @ Atomic_set_stopping True # w @ destroyed_effects (backend st)\<rparr>"
      using False st2 by (intro fin) simp_all
    ultimately show ?thesis
      by simp
  next
    case True
    from handler_run_stopping [of st2 pc env] st2(1,2)
    obtain s3 where s3: "handler_run env pc st2 = Some s3"
      by auto
    note fr = handler_run_frame [OF s3]
    let ?s = "(emit G_thread_join s3)\<lparr>handler_thread := False\<rparr>"
    from True st2(4) assms s3
    have "janus_sampleevh_destroy env pc st = Some (finish_destroy ?s)"
      by (simp add: janus_sampleevh_destroy_def st2_def [symmetric] Let_def g_thread_join_def)
    moreover have "quiet_from (trace st2) (trace ?s)"
      using fr by (simp add: quiet_from_snoc)
    then have "\<exists>w. list_all quiet w \<and> finish_destroy ?s =
       st\<lparr>initialized := False, stopping := False, handler_thread := False,
               events := None, backend := (case backend st of Live _ \<Rightarrow> Freed | b \<Rightarrow> b),
               trace := trace st @ Atomic_set_stopping True # w @ destroyed_effects (backend st)\<rparr>"
      using fr st2 by (intro fin) simp_all
    ultimately show ?thesis
      by simp
  qed
qed


lemma yes_is_true: "strcasecmp ''yes'' ''yes'' = 0"
  by code_simp

lemma host_parse [simp]:
  "janus_config_parse (host_env items e) f = Some (general_config items)"
  "g_thread_try_new (host_env items e) = e"
  by (simp_all add: host_env_def)

lemma host_enabled [simp]: "spec_enabled (host_env (enabled_items url evs) e) (general_config (enabled_items url evs))"
  by (simp add: spec_enabled_def host_env_def general_config_def enabled_items_def yes_is_true)

lemma host_backend [simp]:
  "spec_backend_valid (general_config (enabled_items url evs)) = prefix ''http'' url"
  "backend_url (general_config (enabled_items url evs)) = url"
  "general_config (enabled_items url evs) ''general'' ''events'' = Some \<lparr>item_value = Some evs\<rparr>"
  by (simp_all add: spec_backend_valid_def backend_url_def general_config_def enabled_items_def)

lemma init_configured_started:
  assumes "\<not> stopping st"
    and "janus_config_parse env (config_filename path) = Some c"
    and "spec_enabled env c" and "spec_backend_valid c" and "g_thread_try_new env = None"
  shows "janus_sampleevh_init env (Some path) st
           = (0, st\<lparr>initialized := True, handler_thread := True, events := Some [],
                   backend := Live (backend_url c),
                   events_mask := spec_mask_after (c ''general'' ''events'') (events_mask st),
                   trace := trace st @ configured_effects path c @ started_effects\<rparr>)"
  using assms(5) by (simp add: init_configured [OF assms(1-4)] start_handler_eq)

lemma init_configured_failed:
  assumes "\<not> stopping st"
    and "janus_config_parse env (config_filename path) = Some c"
    and "spec_enabled env c" and "spec_backend_valid c" and "g_thread_try_new env = Some error"
  shows "janus_sampleevh_init env (Some path) st
           = (- 1, st\<lparr>initialized := False, handler_thread := False, events := Some [],
                   backend := Live (backend_url c),
                   events_mask := spec_mask_after (c ''general'' ''events'') (events_mask st),
                   trace := trace st @ configured_effects path c @ start_failed_effects error\<rparr>)"
  using assms(5) by (simp add: init_configured [OF assms(1-4)] start_handler_eq)

lemma destroy_running:
  "janus_sampleevh_destroy backend_up In_pop running_state = Some stopped_state"
  by (simp add: janus_sampleevh_destroy_def running_state_def initial_state_def stopped_state_def
        g_atomic_int_set_stopping_def g_async_queue_push_def g_thread_join_def leave_handler_eq
        finish_destroy_eq emit_def releases_def Let_def)

lemma quiet_refused: "list_all quiet (refused_effects env path)"
  by (simp add: refused_effects_def split: option.splits)

lemma quiet_configured: "list_all quiet (configured_effects path c)"
  by (simp add: configured_effects_def quiet_spec_warnings)

lemma quiet_not_thread: "list_all quiet xs \<Longrightarrow> G_thread_try_new ok \<notin> set xs"
  by (auto simp: list_all_iff)

lemma quiet_not_release:
  "list_all (\<lambda>e. e \<noteq> G_async_queue_unref \<and> (\<forall>b. e \<noteq> G_free_backend b)) (spec_warnings item)"
  by (simp add: spec_warnings_def warn_unknown_def list_all_iff split: option.splits) auto

lemma no_backend_invalid [simp]: "\<not> spec_backend_valid (general_config [(''enabled'', ''yes'')])"
  by (simp add: spec_backend_valid_def general_config_def)

text \<open>
  C7. Destroy is idempotent. With \<open>initialized\<close> clear it returns the state as it is.
  It always returns (the join ends, wherever the thread stands), and when it has run
  from a state with \<open>initialized\<close> set both flags are clear afterwards. A second destroy,
  with any backend and thread position, then changes nothing. After a destroy that ran,
  an init with a configuration that enables the plugin, a valid backend and a thread that
  starts returns 0 and leaves \<open>initialized\<close> set and \<open>stopping\<close> clear.
\<close>

theorem destroy_idempotent:
  "(\<not> initialized st \<longrightarrow> janus_sampleevh_destroy env pc st = Some st)
   \<and> (\<exists>st'. janus_sampleevh_destroy env pc st = Some st')
   \<and> (initialized st \<and> janus_sampleevh_destroy env pc st = Some st'
        \<longrightarrow> \<not> initialized st' \<and> \<not> stopping st')
   \<and> (janus_sampleevh_destroy env pc st = Some st'
        \<longrightarrow> janus_sampleevh_destroy env' pc' st' = Some st')
   \<and> (initialized st \<and> janus_sampleevh_destroy env pc st = Some st'
        \<and> janus_config_parse ienv (config_filename path) = Some c
        \<and> spec_enabled ienv c \<and> spec_backend_valid c \<and> g_thread_try_new ienv = None
        \<longrightarrow> fst (janus_sampleevh_init ienv (Some path) st') = 0
            \<and> initialized (snd (janus_sampleevh_init ienv (Some path) st'))
            \<and> \<not> stopping (snd (janus_sampleevh_init ienv (Some path) st')))"
proof -
  have returns: "\<exists>st'. janus_sampleevh_destroy env pc st = Some st'"
    using destroy_initialized [of st env pc] destroy_not_initialized [of st env pc]
    by (cases "initialized st") auto
  have down: "\<not> initialized st' \<and> \<not> stopping st'"
    if "initialized st" "janus_sampleevh_destroy env pc st = Some st'"
    using destroy_initialized [OF that(1), of env pc] that(2) by auto
  have again: "janus_sampleevh_destroy env' pc' st' = Some st'"
    if "janus_sampleevh_destroy env pc st = Some st'"
  proof (cases "initialized st")
    case True
    from down [OF True that] show ?thesis
      by (simp add: destroy_not_initialized)
  next
    case False
    with that show ?thesis
      by (simp add: destroy_not_initialized)
  qed
  have restart: "fst (janus_sampleevh_init ienv (Some path) st') = 0
            \<and> initialized (snd (janus_sampleevh_init ienv (Some path) st'))
            \<and> \<not> stopping (snd (janus_sampleevh_init ienv (Some path) st'))"
    if "initialized st" "janus_sampleevh_destroy env pc st = Some st'"
      "janus_config_parse ienv (config_filename path) = Some c"
      "spec_enabled ienv c" "spec_backend_valid c" "g_thread_try_new ienv = None"
  proof -
    from down [OF that(1,2)] have ns: "\<not> stopping st'"
      by simp
    show ?thesis
      by (simp add: init_configured_started [OF ns that(3-6)] ns)
  qed
  from returns down again restart show ?thesis
    by (simp add: destroy_not_initialized)
qed


theorem destroy_idempotent_witness:
  "janus_sampleevh_destroy backend_up In_pop initial_state = Some initial_state
   \<and> janus_sampleevh_destroy backend_up In_pop running_state = Some stopped_state
   \<and> \<not> initialized stopped_state \<and> \<not> stopping stopped_state
   \<and> janus_sampleevh_destroy backend_up At_while stopped_state = Some stopped_state
   \<and> fst (janus_sampleevh_init (host_env (enabled_items ''http://x'' ''all'') None)
             (Some ''/etc/janus'') stopped_state) = 0"
  using destroy_idempotent [of initial_state backend_up In_pop initial_state backend_up At_while
          "host_env (enabled_items ''http://x'' ''all'') None" "''/etc/janus''"
          "general_config (enabled_items ''http://x'' ''all'')"]
        destroy_idempotent [of running_state backend_up In_pop stopped_state backend_up At_while
          "host_env (enabled_items ''http://x'' ''all'') None" "''/etc/janus''"
          "general_config (enabled_items ''http://x'' ''all'')"]
  by (simp add: destroy_running) (simp add: initial_state_def running_state_def)

text \<open>
  C5. Whenever the configuration that init reads has no \<open>general.backend\<close> item, or
  the item has no value, or the value does not begin with \<open>http\<close> (the empty value
  included), init returns -1, starts no thread and leaves the thread handle alone,
  whatever else the configuration and the state are. A value that begins with \<open>http\<close>
  passes: with the plugin enabled, not stopping, and a thread that starts, init
  returns 0 and the thread is started. The test is the one of the code: \<open>strstr\<close>
  finds \<open>http\<close> at offset zero, so upper case does not pass and \<open>https\<close> does.
\<close>

theorem init_fails_on_invalid_backend:
  "(janus_config_parse env (config_filename path) = Some c \<and> \<not> spec_backend_valid c \<longrightarrow>
      fst (janus_sampleevh_init env (Some path) st) = - 1
      \<and> (\<forall>ok. G_thread_try_new ok
            \<notin> set (effects_since st (snd (janus_sampleevh_init env (Some path) st))))
      \<and> handler_thread (snd (janus_sampleevh_init env (Some path) st)) = handler_thread st)
   \<and> (\<not> stopping st \<and> janus_config_parse env (config_filename path) = Some c
       \<and> spec_enabled env c \<and> spec_backend_valid c \<and> g_thread_try_new env = None \<longrightarrow>
      fst (janus_sampleevh_init env (Some path) st) = 0
      \<and> G_thread_try_new True
            \<in> set (effects_since st (snd (janus_sampleevh_init env (Some path) st))))
   \<and> (spec_backend_valid c \<longleftrightarrow>
        (\<exists>it v. c ''general'' ''backend'' = Some it \<and> item_value it = Some v
                \<and> strstr v ''http'' = Some 0))"
proof (intro conjI impI allI)
  assume bad: "janus_config_parse env (config_filename path) = Some c \<and> \<not> spec_backend_valid c"
  have "janus_sampleevh_init env (Some path) st = (- 1, st)
        \<or> janus_sampleevh_init env (Some path) st
            = (- 1, st\<lparr>trace := trace st @ refused_effects env path\<rparr>)"
  proof (cases "stopping st")
    case True
    then show ?thesis by (simp add: init_stopping)
  next
    case False
    with bad show ?thesis by (simp add: init_refused)
  qed
  then have res: "fst (janus_sampleevh_init env (Some path) st) = - 1
      \<and> handler_thread (snd (janus_sampleevh_init env (Some path) st)) = handler_thread st
      \<and> list_all quiet (effects_since st (snd (janus_sampleevh_init env (Some path) st)))"
    by (auto simp: effects_since_def quiet_refused)
  from res show "fst (janus_sampleevh_init env (Some path) st) = - 1"
    by simp
  from res show "handler_thread (snd (janus_sampleevh_init env (Some path) st)) = handler_thread st"
    by simp
  fix ok
  from res show "G_thread_try_new ok
        \<notin> set (effects_since st (snd (janus_sampleevh_init env (Some path) st)))"
    by (simp add: quiet_not_thread)
next
  assume ok: "\<not> stopping st \<and> janus_config_parse env (config_filename path) = Some c
       \<and> spec_enabled env c \<and> spec_backend_valid c \<and> g_thread_try_new env = None"
  then have eq: "janus_sampleevh_init env (Some path) st
           = (0, st\<lparr>initialized := True, handler_thread := True, events := Some [],
                   backend := Live (backend_url c),
                   events_mask := spec_mask_after (c ''general'' ''events'') (events_mask st),
                   trace := trace st @ configured_effects path c @ started_effects\<rparr>)"
    by (intro init_configured_started) simp_all
  then show "fst (janus_sampleevh_init env (Some path) st) = 0"
    by simp
  from eq show "G_thread_try_new True
        \<in> set (effects_since st (snd (janus_sampleevh_init env (Some path) st)))"
    by (simp add: effects_since_def started_effects_def)
next
  show "spec_backend_valid c \<longleftrightarrow>
        (\<exists>it v. c ''general'' ''backend'' = Some it \<and> item_value it = Some v
                \<and> strstr v ''http'' = Some 0)"
    by (auto simp: spec_backend_valid_def strstr_prefix split: option.splits)
qed


theorem init_fails_on_invalid_backend_witness:
  "fst (janus_sampleevh_init (host_env (enabled_items ''ftp://x'' ''all'') None)
          (Some ''/etc/janus'') initial_state) = - 1
   \<and> fst (janus_sampleevh_init (host_env (enabled_items ''HTTP://x'' ''all'') None)
          (Some ''/etc/janus'') initial_state) = - 1
   \<and> fst (janus_sampleevh_init (host_env (enabled_items [] ''all'') None)
          (Some ''/etc/janus'') initial_state) = - 1
   \<and> fst (janus_sampleevh_init (host_env [(''enabled'', ''yes'')] None)
          (Some ''/etc/janus'') initial_state) = - 1
   \<and> fst (janus_sampleevh_init (host_env (enabled_items ''http://x'' ''all'') None)
          (Some ''/etc/janus'') initial_state) = 0
   \<and> fst (janus_sampleevh_init (host_env (enabled_items ''https://x'' ''all'') None)
          (Some ''/etc/janus'') initial_state) = 0"
  using init_fails_on_invalid_backend [where st = initial_state
          and env = "host_env (enabled_items ''ftp://x'' ''all'') None" and path = "''/etc/janus''"
          and c = "general_config (enabled_items ''ftp://x'' ''all'')"]
        init_fails_on_invalid_backend [where st = initial_state
          and env = "host_env (enabled_items ''HTTP://x'' ''all'') None" and path = "''/etc/janus''"
          and c = "general_config (enabled_items ''HTTP://x'' ''all'')"]
        init_fails_on_invalid_backend [where st = initial_state
          and env = "host_env (enabled_items [] ''all'') None" and path = "''/etc/janus''"
          and c = "general_config (enabled_items [] ''all'')"]
        init_fails_on_invalid_backend [where st = initial_state
          and env = "host_env ([(''enabled'', ''yes'')]) None" and path = "''/etc/janus''"
          and c = "general_config ([(''enabled'', ''yes'')])"]
        init_fails_on_invalid_backend [where st = initial_state
          and env = "host_env (enabled_items ''http://x'' ''all'') None" and path = "''/etc/janus''"
          and c = "general_config (enabled_items ''http://x'' ''all'')"]
        init_fails_on_invalid_backend [where st = initial_state
          and env = "host_env (enabled_items ''https://x'' ''all'') None" and path = "''/etc/janus''"
          and c = "general_config (enabled_items ''https://x'' ''all'')"]
  by (simp add: initial_state_def)

text \<open>
  C10. When init has read a valid configuration and the thread cannot be started, it
  returns -1 in a state where only \<open>initialized\<close> has been taken back: the new queue is
  still there and empty, the backend is still the copy of the URL, and the effects
  after the configuration are the global init of libcurl, the creation of the queue,
  the flag set, the failed start, the flag reset and the error line; no queue is
  released and no string is freed (the plugin has no call that undoes the global init
  of libcurl at all). A destroy after that returns at once and changes nothing.
\<close>

theorem failed_thread_start_rolls_back_flag_only:
  assumes "\<not> stopping st"
    and "janus_config_parse env (config_filename path) = Some c"
    and "spec_enabled env c" and "spec_backend_valid c"
    and "g_thread_try_new env = Some error"
  shows "janus_sampleevh_init env (Some path) st
           = (- 1, st\<lparr>initialized := False, handler_thread := False, events := Some [],
                   backend := Live (backend_url c),
                   events_mask := spec_mask_after (c ''general'' ''events'') (events_mask st),
                   trace := trace st @ configured_effects path c @ start_failed_effects error\<rparr>)
         \<and> start_failed_effects error =
             [Curl_global_init, G_async_queue_new_full, Atomic_set_initialized True,
              G_thread_try_new False, Atomic_set_initialized False,
              JANUS_LOG LOG_ERR
                ''Got error %d (%s) trying to launch the SampleEventHandler handler thread...\<newline>''
                [Arg_int (error_code error),
                 Arg_str (case error_message error of Some m \<Rightarrow> m | None \<Rightarrow> ''??'')]]
         \<and> G_async_queue_unref
              \<notin> set (effects_since st (snd (janus_sampleevh_init env (Some path) st)))
         \<and> G_free_backend b
              \<notin> set (effects_since st (snd (janus_sampleevh_init env (Some path) st)))
         \<and> janus_sampleevh_destroy henv pc (snd (janus_sampleevh_init env (Some path) st))
             = Some (snd (janus_sampleevh_init env (Some path) st))"
proof -
  note eq = init_configured_failed [OF assms]
  have eff: "effects_since st (snd (janus_sampleevh_init env (Some path) st))
      = configured_effects path c @ start_failed_effects error"
    by (simp add: eq effects_since_def)
  have nr: "list_all (\<lambda>e. e \<noteq> G_async_queue_unref \<and> (\<forall>b. e \<noteq> G_free_backend b))
              (configured_effects path c @ start_failed_effects error)"
    by (simp add: configured_effects_def start_failed_effects_def quiet_not_release)
  then have "G_async_queue_unref \<notin> set (configured_effects path c @ start_failed_effects error)"
    and "G_free_backend b \<notin> set (configured_effects path c @ start_failed_effects error)"
    unfolding list_all_iff by blast+
  with eff have norel: "G_async_queue_unref
              \<notin> set (effects_since st (snd (janus_sampleevh_init env (Some path) st)))"
     "G_free_backend b
              \<notin> set (effects_since st (snd (janus_sampleevh_init env (Some path) st)))"
    by simp_all
  have des: "janus_sampleevh_destroy henv pc (snd (janus_sampleevh_init env (Some path) st))
             = Some (snd (janus_sampleevh_init env (Some path) st))"
    by (rule destroy_not_initialized) (simp add: eq)
  have unf: "start_failed_effects error =
             [Curl_global_init, G_async_queue_new_full, Atomic_set_initialized True,
              G_thread_try_new False, Atomic_set_initialized False,
              JANUS_LOG LOG_ERR
                ''Got error %d (%s) trying to launch the SampleEventHandler handler thread...\<newline>''
                [Arg_int (error_code error),
                 Arg_str (case error_message error of Some m \<Rightarrow> m | None \<Rightarrow> ''??'')]]"
    by (simp add: start_failed_effects_def)
  from eq unf norel des show ?thesis
    by (intro conjI)
qed

theorem failed_thread_start_rolls_back_flag_only_witness:
  "events (snd (janus_sampleevh_init (host_env (enabled_items ''http://x'' ''all'') (Some thread_error))
            (Some ''/etc/janus'') initial_state)) = Some []
   \<and> backend (snd (janus_sampleevh_init (host_env (enabled_items ''http://x'' ''all'') (Some thread_error))
            (Some ''/etc/janus'') initial_state)) = Live ''http://x''
   \<and> \<not> initialized (snd (janus_sampleevh_init (host_env (enabled_items ''http://x'' ''all'') (Some thread_error))
            (Some ''/etc/janus'') initial_state))
   \<and> fst (janus_sampleevh_init (host_env (enabled_items ''http://x'' ''all'') (Some thread_error))
            (Some ''/etc/janus'') initial_state) = - 1"
  using failed_thread_start_rolls_back_flag_only
          [where st = initial_state
             and env = "host_env (enabled_items ''http://x'' ''all'') (Some thread_error)"
             and path = "''/etc/janus''"
             and c = "general_config (enabled_items ''http://x'' ''all'')"
             and error = thread_error and b = Null and henv = backend_up and pc = At_entry]
  by (simp add: initial_state_def)

section \<open>The mask and the flags over the plugin's life\<close>

lemma destroy_keeps_mask:
  "janus_sampleevh_destroy env pc st = Some st' \<Longrightarrow> events_mask st' = events_mask st"
  using destroy_initialized [of st env pc] destroy_not_initialized [of st env pc]
  by (cases "initialized st") auto

lemma destroy_clears_stopping:
  "janus_sampleevh_destroy env pc st = Some st' \<Longrightarrow> \<not> stopping st \<Longrightarrow> \<not> stopping st'"
  using destroy_initialized [of st env pc] destroy_not_initialized [of st env pc]
  by (cases "initialized st") auto

lemma destroy_returns: "\<exists>st'. janus_sampleevh_destroy env pc st = Some st'"
  using destroy_initialized [of st env pc] destroy_not_initialized [of st env pc]
  by (cases "initialized st") auto

lemma init_configured_mask:
  assumes "\<not> stopping st"
    and "janus_config_parse env (config_filename path) = Some c"
    and "spec_enabled env c" and "spec_backend_valid c"
  shows "events_mask (snd (janus_sampleevh_init env (Some path) st))
           = spec_mask_after (c ''general'' ''events'') (events_mask st)"
    and "stopping (snd (janus_sampleevh_init env (Some path) st)) = False"
  using assms(1)
  by (simp_all add: init_configured [OF assms] start_handler_eq split: option.splits)

lemma spec_mask_after_list:
  "strcasecmp v ''none'' \<noteq> 0 \<Longrightarrow> strcasecmp v ''all'' \<noteq> 0 \<Longrightarrow>
   spec_mask_after (Some \<lparr>item_value = Some v\<rparr>) flags = flags \<union> spec_listed_kinds v"
  by (simp add: spec_mask_after_def strcasecmp_none strcasecmp_all)

lemma sample_kinds:
  "spec_listed_kinds ''sessions,handles'' = {Session, Handle}"
  "spec_listed_kinds ''media'' = {Media}"
  "strcasecmp ''sessions,handles'' ''none'' \<noteq> 0" "strcasecmp ''sessions,handles'' ''all'' \<noteq> 0"
  "strcasecmp ''media'' ''none'' \<noteq> 0" "strcasecmp ''media'' ''all'' \<noteq> 0"
  by code_simp+

lemma init_effect_cases:
  "\<exists>xs tail. list_all quiet xs
     \<and> effects_since st (snd (janus_sampleevh_init env cp st)) = xs @ tail
     \<and> ((tail = [] \<and> fst (janus_sampleevh_init env cp st) = - 1)
        \<or> (tail = started_effects \<and> fst (janus_sampleevh_init env cp st) = 0
            \<and> \<not> stopping st \<and> g_thread_try_new env = None)
        \<or> (\<exists>error. tail = start_failed_effects error
            \<and> fst (janus_sampleevh_init env cp st) = - 1
            \<and> \<not> stopping st \<and> g_thread_try_new env = Some error))"
proof -
  consider (stop) "stopping st" | (nopath) "cp = None"
    | (refused) path where "\<not> stopping st" "cp = Some path"
        "\<forall>c. janus_config_parse env (config_filename path) = Some c
           \<longrightarrow> \<not> (spec_enabled env c \<and> spec_backend_valid c)"
    | (started) path c where "\<not> stopping st" "cp = Some path"
        "janus_config_parse env (config_filename path) = Some c"
        "spec_enabled env c" "spec_backend_valid c" "g_thread_try_new env = None"
    | (failed) path c error where "\<not> stopping st" "cp = Some path"
        "janus_config_parse env (config_filename path) = Some c"
        "spec_enabled env c" "spec_backend_valid c" "g_thread_try_new env = Some error"
    by (cases cp; cases "g_thread_try_new env") auto
  then show ?thesis
  proof cases
    case stop
    then show ?thesis
      by (intro exI [of _ "[]"]) (simp add: init_stopping effects_since_def)
  next
    case nopath
    then show ?thesis
      by (intro exI [of _ "[]"]) (simp add: init_no_path effects_since_def)
  next
    case (refused path)
    show ?thesis
      by (intro exI [of _ "refused_effects env path"] exI [of _ "[]"])
         (simp add: refused(2) init_refused [OF refused(1,3)] effects_since_def quiet_refused)
  next
    case (started path c)
    show ?thesis
      by (intro exI [of _ "configured_effects path c"] exI [of _ started_effects])
         (simp add: started init_configured_started [OF started(1,3-6)] effects_since_def
            quiet_configured)
  next
    case (failed path c error)
    show ?thesis
      by (intro exI [of _ "configured_effects path c"] exI [of _ "start_failed_effects error"])
         (simp add: failed init_configured_failed [OF failed(1,3-6)] effects_since_def
            quiet_configured)
  qed
qed

lemma init_transition_cases:
  "(transitions_between st (snd (janus_sampleevh_init env cp st)) = []
      \<and> (fst (janus_sampleevh_init env cp st) = 0 \<longrightarrow> initialized st))
   \<or> (transitions_between st (snd (janus_sampleevh_init env cp st))
         = [((False, False), (True, False))]
       \<and> \<not> initialized st \<and> fst (janus_sampleevh_init env cp st) = 0)
   \<or> (set (transitions_between st (snd (janus_sampleevh_init env cp st)))
         \<subseteq> {((False, False), (True, False)), ((True, False), (False, False))}
       \<and> fst (janus_sampleevh_init env cp st) = - 1 \<and> g_thread_try_new env \<noteq> None)"
proof -
  from init_effect_cases [of st env cp] obtain xs tail where q: "list_all quiet xs"
    and eff: "effects_since st (snd (janus_sampleevh_init env cp st)) = xs @ tail"
    and tail: "(tail = [] \<and> fst (janus_sampleevh_init env cp st) = - 1)
        \<or> (tail = started_effects \<and> fst (janus_sampleevh_init env cp st) = 0
            \<and> \<not> stopping st \<and> g_thread_try_new env = None)
        \<or> (\<exists>error. tail = start_failed_effects error
            \<and> fst (janus_sampleevh_init env cp st) = - 1
            \<and> \<not> stopping st \<and> g_thread_try_new env = Some error)"
    by blast
  have tr: "transitions_between st (snd (janus_sampleevh_init env cp st))
      = flag_transitions (initialized st, stopping st) tail"
    by (simp add: transitions_between_def eff transitions_quiet [OF q])
  from tail show ?thesis
    by (cases "initialized st")
       (auto simp: tr started_effects_def start_failed_effects_def)
qed

lemma destroy_transition_cases:
  assumes "janus_sampleevh_destroy env pc st = Some st'"
  shows "transitions_between st st' =
     (if \<not> initialized st then []
      else (if stopping st then [] else [((True, False), (True, True))])
           @ [((True, True), (False, True)), ((False, True), (False, False))])"
proof (cases "initialized st")
  case False
  with assms show ?thesis
    by (simp add: destroy_not_initialized transitions_between_def effects_since_def)
next
  case True
  from destroy_initialized [OF True, of env pc] assms obtain w where w: "list_all quiet w"
    and eff: "effects_since st st' = Atomic_set_stopping True # w @ destroyed_effects (backend st)"
    by (auto simp: effects_since_def)
  show ?thesis
    by (simp add: transitions_between_def eff True transitions_quiet [OF w] destroyed_effects_def)
qed

lemma quiet_call_no_transition:
  "quiet_from (trace st) (trace st') \<Longrightarrow> transitions_between st st' = []"
  by (auto simp: quiet_from_def transitions_between_def effects_since_def transitions_quiet_only)


lemma incoming_event_quiet:
  "quiet_from (trace st) (trace (janus_sampleevh_incoming_event event st))"
  by (simp add: janus_sampleevh_incoming_event_def g_async_queue_push_def quiet_from_snoc
        split: option.splits)

lemma initial_flags [simp]:
  "initialized initial_state = False" "stopping initial_state = False" "trace initial_state = []"
  by (simp_all add: initial_state_def)

lemma init_started_example:
  "fst (janus_sampleevh_init (host_env (enabled_items ''http://x'' ''all'') None)
     (Some ''/etc/janus'') initial_state) = 0"
  "effects_since initial_state
     (snd (janus_sampleevh_init (host_env (enabled_items ''http://x'' ''all'') None)
        (Some ''/etc/janus'') initial_state))
   = configured_effects ''/etc/janus'' (general_config (enabled_items ''http://x'' ''all''))
       @ started_effects"
proof -
  have "\<not> stopping initial_state"
    by simp
  note eq = init_configured_started [OF this, of "host_env (enabled_items ''http://x'' ''all'') None"
      "''/etc/janus''" "general_config (enabled_items ''http://x'' ''all'')"]
  show "fst (janus_sampleevh_init (host_env (enabled_items ''http://x'' ''all'') None)
     (Some ''/etc/janus'') initial_state) = 0"
    using eq by simp
  show "effects_since initial_state
     (snd (janus_sampleevh_init (host_env (enabled_items ''http://x'' ''all'') None)
        (Some ''/etc/janus'') initial_state))
   = configured_effects ''/etc/janus'' (general_config (enabled_items ''http://x'' ''all''))
       @ started_effects"
    using eq by (simp add: effects_since_def)
qed

lemma init_failed_example:
  "fst (janus_sampleevh_init (host_env (enabled_items ''http://x'' ''all'') (Some thread_error))
     (Some ''/etc/janus'') initial_state) = - 1"
  "effects_since initial_state
     (snd (janus_sampleevh_init (host_env (enabled_items ''http://x'' ''all'') (Some thread_error))
        (Some ''/etc/janus'') initial_state))
   = configured_effects ''/etc/janus'' (general_config (enabled_items ''http://x'' ''all''))
       @ start_failed_effects thread_error"
proof -
  have "\<not> stopping initial_state"
    by simp
  note eq = init_configured_failed [OF this,
      of "host_env (enabled_items ''http://x'' ''all'') (Some thread_error)"
      "''/etc/janus''" "general_config (enabled_items ''http://x'' ''all'')" thread_error]
  show "fst (janus_sampleevh_init (host_env (enabled_items ''http://x'' ''all'') (Some thread_error))
     (Some ''/etc/janus'') initial_state) = - 1"
    using eq by simp
  show "effects_since initial_state
     (snd (janus_sampleevh_init (host_env (enabled_items ''http://x'' ''all'') (Some thread_error))
        (Some ''/etc/janus'') initial_state))
   = configured_effects ''/etc/janus'' (general_config (enabled_items ''http://x'' ''all''))
       @ start_failed_effects thread_error"
    using eq by (simp add: effects_since_def)
qed

lemma transitions_examples:
  "transitions_between initial_state
     (snd (janus_sampleevh_init (host_env (enabled_items ''http://x'' ''all'') None)
            (Some ''/etc/janus'') initial_state))
     = [((False, False), (True, False))]"
  "transitions_between initial_state
     (snd (janus_sampleevh_init (host_env (enabled_items ''http://x'' ''all'') (Some thread_error))
            (Some ''/etc/janus'') initial_state))
     = [((False, False), (True, False)), ((True, False), (False, False))]"
  "transitions_between running_state stopped_state
     = [((True, False), (True, True)), ((True, True), (False, True)), ((False, True), (False, False))]"
proof -
  have q: "list_all quiet (configured_effects ''/etc/janus'' (general_config (enabled_items ''http://x'' ''all'')))"
    by (rule quiet_configured)
  have "transitions_between initial_state
     (snd (janus_sampleevh_init (host_env (enabled_items ''http://x'' ''all'') None)
            (Some ''/etc/janus'') initial_state))
     = flag_transitions (False, False)
         (configured_effects ''/etc/janus'' (general_config (enabled_items ''http://x'' ''all''))
           @ started_effects)"
    by (simp add: transitions_between_def init_started_example)
  also have "\<dots> = flag_transitions (False, False) started_effects"
    by (rule transitions_quiet [OF q])
  also have "\<dots> = [((False, False), (True, False))]"
    by (simp add: started_effects_def)
  finally show "transitions_between initial_state
     (snd (janus_sampleevh_init (host_env (enabled_items ''http://x'' ''all'') None)
            (Some ''/etc/janus'') initial_state))
     = [((False, False), (True, False))]" .
  have "transitions_between initial_state
     (snd (janus_sampleevh_init (host_env (enabled_items ''http://x'' ''all'') (Some thread_error))
            (Some ''/etc/janus'') initial_state))
     = flag_transitions (False, False)
         (configured_effects ''/etc/janus'' (general_config (enabled_items ''http://x'' ''all''))
           @ start_failed_effects thread_error)"
    by (simp add: transitions_between_def init_failed_example)
  also have "\<dots> = flag_transitions (False, False) (start_failed_effects thread_error)"
    by (rule transitions_quiet [OF q])
  also have "\<dots> = [((False, False), (True, False)), ((True, False), (False, False))]"
    by (simp add: start_failed_effects_def)
  finally show "transitions_between initial_state
     (snd (janus_sampleevh_init (host_env (enabled_items ''http://x'' ''all'') (Some thread_error))
            (Some ''/etc/janus'') initial_state))
     = [((False, False), (True, False)), ((True, False), (False, False))]" .
  show "transitions_between running_state stopped_state
     = [((True, False), (True, True)), ((True, True), (False, True)), ((False, True), (False, False))]"
    by (simp add: transitions_between_def effects_since_def stopped_state_def running_state_def
          initial_state_def destroyed_effects_def)
qed

text \<open>
  C9. Neither destroy nor a new init clears the events mask. Take two configurations
  that enable the plugin with a valid backend and whose \<open>events\<close> values are lists
  (neither \<open>none\<close> nor \<open>all\<close>): after init with the first, destroy, and init with the
  second, whatever the thread starts do, the mask is the one before the first init
  together with the kinds of both lists; destroy leaves the mask as it found it. And
  for every value other than \<open>none\<close> (without regard to case) the parser only adds to
  the mask.
\<close>

theorem mask_accumulates_across_restart:
  assumes "\<not> stopping st"
    and "janus_config_parse envA (config_filename pathA) = Some cA"
    and "spec_enabled envA cA" and "spec_backend_valid cA"
    and "cA ''general'' ''events'' = Some \<lparr>item_value = Some a\<rparr>"
    and "strcasecmp a ''none'' \<noteq> 0" and "strcasecmp a ''all'' \<noteq> 0"
    and "janus_config_parse envB (config_filename pathB) = Some cB"
    and "spec_enabled envB cB" and "spec_backend_valid cB"
    and "cB ''general'' ''events'' = Some \<lparr>item_value = Some b\<rparr>"
    and "strcasecmp b ''none'' \<noteq> 0" and "strcasecmp b ''all'' \<noteq> 0"
  shows "(\<exists>r1 st1 st2 r3 st3.
       janus_sampleevh_init envA (Some pathA) st = (r1, st1)
     \<and> janus_sampleevh_destroy henv pc st1 = Some st2
     \<and> janus_sampleevh_init envB (Some pathB) st2 = (r3, st3)
     \<and> events_mask st1 = events_mask st \<union> spec_listed_kinds a
     \<and> events_mask st2 = events_mask st1
     \<and> events_mask st3 = events_mask st \<union> spec_listed_kinds a \<union> spec_listed_kinds b)
     \<and> (\<forall>v s. strcasecmp v ''none'' \<noteq> 0 \<longrightarrow>
           events_mask s \<subseteq> events_mask (subscribe_events (Some \<lparr>item_value = Some v\<rparr>) s))"
proof -
  have grows: "events_mask s \<subseteq> events_mask (subscribe_events (Some \<lparr>item_value = Some v\<rparr>) s)"
    if "strcasecmp v ''none'' \<noteq> 0" for v s
    using that by (auto simp: subscribe_events_eq spec_mask_after_def strcasecmp_none)
  obtain r1 st1 where i1: "janus_sampleevh_init envA (Some pathA) st = (r1, st1)"
    by (cases "janus_sampleevh_init envA (Some pathA) st")
  from init_configured_mask [OF assms(1-4)] i1 assms(5-7)
  have m1: "events_mask st1 = events_mask st \<union> spec_listed_kinds a" and s1: "\<not> stopping st1"
    by (simp_all add: spec_mask_after_list)
  obtain st2 where d: "janus_sampleevh_destroy henv pc st1 = Some st2"
    using destroy_returns by blast
  from destroy_keeps_mask [OF d] have m2: "events_mask st2 = events_mask st1" .
  from destroy_clears_stopping [OF d s1] have s2: "\<not> stopping st2" .
  obtain r3 st3 where i3: "janus_sampleevh_init envB (Some pathB) st2 = (r3, st3)"
    by (cases "janus_sampleevh_init envB (Some pathB) st2")
  from init_configured_mask(1) [OF s2 assms(8-10)] i3 assms(11-13)
  have m3: "events_mask st3 = events_mask st2 \<union> spec_listed_kinds b"
    by (simp add: spec_mask_after_list)
  from i1 d i3 m1 m2 m3
  have "\<exists>r1 st1 st2 r3 st3.
       janus_sampleevh_init envA (Some pathA) st = (r1, st1)
     \<and> janus_sampleevh_destroy henv pc st1 = Some st2
     \<and> janus_sampleevh_init envB (Some pathB) st2 = (r3, st3)
     \<and> events_mask st1 = events_mask st \<union> spec_listed_kinds a
     \<and> events_mask st2 = events_mask st1
     \<and> events_mask st3 = events_mask st \<union> spec_listed_kinds a \<union> spec_listed_kinds b"
    by (intro exI [of _ r1] exI [of _ st1] exI [of _ st2] exI [of _ r3] exI [of _ st3]) simp
  with grows show ?thesis
    by (intro conjI allI impI)
qed

theorem mask_accumulates_across_restart_witness:
  "\<exists>r1 st1 st2 r3 st3.
       janus_sampleevh_init (host_env (enabled_items ''http://x'' ''sessions,handles'') None)
         (Some ''/etc/janus'') initial_state = (r1, st1)
     \<and> janus_sampleevh_destroy backend_up At_entry st1 = Some st2
     \<and> janus_sampleevh_init (host_env (enabled_items ''http://x'' ''media'') None)
         (Some ''/etc/janus'') st2 = (r3, st3)
     \<and> events_mask st1 = {Session, Handle}
     \<and> events_mask st2 = events_mask st1
     \<and> events_mask st3 = {Session, Handle, Media}"
  using mask_accumulates_across_restart
          [where st = initial_state
             and envA = "host_env (enabled_items ''http://x'' ''sessions,handles'') None"
             and pathA = "''/etc/janus''"
             and cA = "general_config (enabled_items ''http://x'' ''sessions,handles'')"
             and a = "''sessions,handles''"
             and envB = "host_env (enabled_items ''http://x'' ''media'') None"
             and pathB = "''/etc/janus''"
             and cB = "general_config (enabled_items ''http://x'' ''media'')"
             and b = "''media''" and henv = backend_up and pc = At_entry]
  by (simp add: sample_kinds initial_state_def JANUS_EVENT_TYPE_NONE_def insert_commute)


lemma flags_along_quiet:
  "list_all quiet xs \<Longrightarrow> flags_along p (xs @ ys) = flags_along p ys"
proof (induction xs)
  case Nil
  show ?case by simp
next
  case (Cons x xs)
  then have "flags_after p x = p"
    by (cases p; cases x) simp_all
  with Cons show ?case by (simp add: flags_along_def)
qed

lemma flags_along_quiet_only: "list_all quiet xs \<Longrightarrow> flags_along p xs = p"
  using flags_along_quiet [of xs p "[]"] by (simp add: flags_along_def)

lemma handler_far_run:
  "handler_run env pc st = Some st' \<Longrightarrow> handler_far env pc st = st'"
proof (induction env pc st arbitrary: st' rule: handler_run.induct)
  case (1 env st)
  let ?st1 = "emit (JANUS_LOG LOG_VERB ''Joining SampleEventHandler handler thread\<newline>'' []) st"
  from "1.prems" have "handler_run env At_while ?st1 = Some st'"
    by (simp only: handler_run.simps(1))
  then have "handler_far env At_while ?st1 = st'"
    by (rule "1.IH")
  then show ?case
    by (simp only: handler_far.simps(1))
next
  case (2 env st)
  show ?case
  proof (cases "initialized st \<and> \<not> stopping st")
    case True
    with "2.prems" have "handler_run env In_pop st = Some st'"
      by (simp del: handler_run.simps(3))
    from "2.IH" [OF True this] True show ?thesis
      by (simp del: handler_far.simps(3))
  next
    case False
    with "2.prems" show ?thesis
      by auto
  qed
next
  case (3 env st)
  show ?case
  proof (cases "events st")
    case None
    with "3.prems" show ?thesis
      by (auto split: if_splits)
  next
    case (Some q)
    show ?thesis
    proof (cases q)
      case Nil
      with Some "3.prems" show ?thesis by simp
    next
      case (Cons event rest)
      show ?thesis
      proof (cases event)
        case NULL
        with Some Cons "3.prems" have "handler_run env At_while (st\<lparr>events := Some rest\<rparr>) = Some st'"
          by (simp del: handler_run.simps(2))
        from "3.IH"(1) [OF Some Cons NULL this] Some Cons NULL show ?thesis
          by (simp del: handler_far.simps(2))
      next
        case Exit_event
        with Some Cons "3.prems" show ?thesis
          by auto
      next
        case (Event n)
        with Some Cons "3.prems"
        have "handler_run env At_while (handle_event env n (st\<lparr>events := Some rest\<rparr>)) = Some st'"
          by (simp del: handler_run.simps(2))
        from "3.IH"(2) [OF Some Cons Event this] Some Cons Event show ?thesis
          by (simp del: handler_far.simps(2))
      qed
    qed
  qed
qed

lemma handler_far_frame:
  "initialized (handler_far env pc st) = initialized st
   \<and> stopping (handler_far env pc st) = stopping st
   \<and> quiet_from (trace st) (trace (handler_far env pc st))"
proof (induction env pc st rule: handler_far.induct)
  case (1 env st)
  let ?st1 = "emit (JANUS_LOG LOG_VERB ''Joining SampleEventHandler handler thread\<newline>'' []) st"
  have "quiet_from (trace st) (trace ?st1)"
    by (simp add: quiet_from_snoc)
  with "1.IH" have "initialized (handler_far env At_while ?st1) = initialized st
   \<and> stopping (handler_far env At_while ?st1) = stopping st
   \<and> quiet_from (trace st) (trace (handler_far env At_while ?st1))"
    by (auto intro: quiet_from_trans)
  then show ?case
    by (simp only: handler_far.simps(1))
next
  case (2 env st)
  show ?case
  proof (cases "initialized st \<and> \<not> stopping st")
    case True
    from "2.IH" [OF True] True show ?thesis
      by (simp del: handler_far.simps(3))
  next
    case False
    then show ?thesis
      by (auto simp: leave_handler_frame leave_handler_quiet)
  qed
next
  case (3 env st)
  show ?case
  proof (cases "events st")
    case None
    then show ?thesis
      by (simp add: leave_handler_frame leave_handler_quiet)
  next
    case (Some q)
    show ?thesis
    proof (cases q)
      case Nil
      with Some show ?thesis by simp
    next
      case (Cons event rest)
      show ?thesis
      proof (cases event)
        case NULL
        from "3.IH"(1) [OF Some Cons NULL] Some Cons NULL show ?thesis
          by (simp del: handler_far.simps(2))
      next
        case Exit_event
        with Some Cons show ?thesis
          by (simp add: leave_handler_frame leave_handler_quiet)
      next
        case (Event n)
        let ?st1 = "handle_event env n (st\<lparr>events := Some rest\<rparr>)"
        have "quiet_from (trace st) (trace ?st1)"
          using handle_event_quiet [of "st\<lparr>events := Some rest\<rparr>" env n] by simp
        with "3.IH"(2) [OF Some Cons Event]
        have "initialized (handler_far env At_while ?st1) = initialized st
           \<and> stopping (handler_far env At_while ?st1) = stopping st
           \<and> quiet_from (trace st) (trace (handler_far env At_while ?st1))"
          by (auto simp: handle_event_frame intro: quiet_from_trans)
        with Some Cons Event show ?thesis
          by (simp del: handler_far.simps(2))
      qed
    qed
  qed
qed


lemma effects_since_quiet: "quiet_from (trace st) (trace st') \<Longrightarrow> list_all quiet (effects_since st st')"
  by (auto simp: quiet_from_def effects_since_def)

lemma init_not_accepted:
  assumes "\<not> config_accepted env cp st"
  shows "fst (janus_sampleevh_init env cp st) = - 1
     \<and> list_all quiet (effects_since st (snd (janus_sampleevh_init env cp st)))
     \<and> initialized (snd (janus_sampleevh_init env cp st)) = initialized st
     \<and> stopping (snd (janus_sampleevh_init env cp st)) = stopping st"
proof -
  have "stopping st \<or> cp = None
      \<or> (\<exists>path. \<not> stopping st \<and> cp = Some path
            \<and> (\<forall>c. janus_config_parse env (config_filename path) = Some c
                   \<longrightarrow> \<not> (spec_enabled env c \<and> spec_backend_valid c)))"
    using assms by (cases cp) (auto simp: config_accepted_def split: option.splits)
  then consider (stop) "stopping st" | (nopath) "cp = None"
    | (refused) path where "\<not> stopping st" "cp = Some path"
        "\<forall>c. janus_config_parse env (config_filename path) = Some c
           \<longrightarrow> \<not> (spec_enabled env c \<and> spec_backend_valid c)"
    by blast
  then show ?thesis
  proof cases
    case stop
    then show ?thesis
      by (simp add: init_stopping effects_since_def)
  next
    case nopath
    then show ?thesis
      by (simp add: init_no_path effects_since_def)
  next
    case (refused path)
    show ?thesis
      by (simp add: refused(2) init_refused [OF refused(1,3)] effects_since_def quiet_refused)
  qed
qed

lemma init_accepted:
  assumes "config_accepted env cp st"
  shows "\<exists>xs. list_all quiet xs \<and> \<not> stopping st
     \<and> (case g_thread_try_new env of
          None \<Rightarrow>
            fst (janus_sampleevh_init env cp st) = 0
            \<and> effects_since st (snd (janus_sampleevh_init env cp st)) = xs @ started_effects
            \<and> initialized (snd (janus_sampleevh_init env cp st))
        | Some error \<Rightarrow>
            fst (janus_sampleevh_init env cp st) = - 1
            \<and> effects_since st (snd (janus_sampleevh_init env cp st))
                 = xs @ start_failed_effects error
            \<and> \<not> initialized (snd (janus_sampleevh_init env cp st)))
     \<and> stopping (snd (janus_sampleevh_init env cp st)) = False"
proof -
  from assms obtain path c where a: "\<not> stopping st" "cp = Some path"
      "janus_config_parse env (config_filename path) = Some c"
      "spec_enabled env c" "spec_backend_valid c"
    by (cases cp) (auto simp: config_accepted_def split: option.splits)
  show ?thesis
  proof (cases "g_thread_try_new env")
    case None
    show ?thesis
      by (intro exI [of _ "configured_effects path c"])
         (simp add: a(1,2) None init_configured_started [OF a(1,3-5) None] effects_since_def
            quiet_configured)
  next
    case (Some error)
    show ?thesis
      by (intro exI [of _ "configured_effects path c"])
         (simp add: a(1,2) Some init_configured_failed [OF a(1,3-5) Some] effects_since_def
            quiet_configured)
  qed
qed

lemma init_result_exact:
  "fst (janus_sampleevh_init env cp st)
     = (if config_accepted env cp st \<and> g_thread_try_new env = None then 0 else - 1)"
  using init_accepted [of env cp st] init_not_accepted [of env cp st]
  by (cases "config_accepted env cp st"; cases "g_thread_try_new env") auto

lemma init_transitions_exact:
  "transitions_between st (snd (janus_sampleevh_init env cp st)) =
     (if config_accepted env cp st then
        (case g_thread_try_new env of
           None \<Rightarrow> if initialized st then [] else [((False, False), (True, False))]
         | Some error \<Rightarrow>
             if initialized st then [((True, False), (False, False))]
             else [((False, False), (True, False)), ((True, False), (False, False))])
      else [])"
proof (cases "config_accepted env cp st")
  case False
  with init_not_accepted [OF False] show ?thesis
    by (simp add: transitions_between_def transitions_quiet_only)
next
  case True
  from init_accepted [OF True] obtain xs where q: "list_all quiet xs" and ns: "\<not> stopping st"
    and c: "case g_thread_try_new env of
          None \<Rightarrow>
            fst (janus_sampleevh_init env cp st) = 0
            \<and> effects_since st (snd (janus_sampleevh_init env cp st)) = xs @ started_effects
            \<and> initialized (snd (janus_sampleevh_init env cp st))
        | Some error \<Rightarrow>
            fst (janus_sampleevh_init env cp st) = - 1
            \<and> effects_since st (snd (janus_sampleevh_init env cp st))
                 = xs @ start_failed_effects error
            \<and> \<not> initialized (snd (janus_sampleevh_init env cp st))"
    by blast
  show ?thesis
  proof (cases "g_thread_try_new env")
    case None
    with c have "effects_since st (snd (janus_sampleevh_init env cp st)) = xs @ started_effects"
      by simp
    with True None ns show ?thesis
      by (simp add: transitions_between_def transitions_quiet [OF q] started_effects_def)
  next
    case (Some error)
    with c have "effects_since st (snd (janus_sampleevh_init env cp st))
                 = xs @ start_failed_effects error"
      by simp
    with True Some ns show ?thesis
      by (simp add: transitions_between_def transitions_quiet [OF q] start_failed_effects_def)
  qed
qed

lemma init_flags_follow:
  "(initialized (snd (janus_sampleevh_init env cp st)), stopping (snd (janus_sampleevh_init env cp st)))
     = flags_along (initialized st, stopping st)
         (effects_since st (snd (janus_sampleevh_init env cp st)))"
proof (cases "config_accepted env cp st")
  case False
  with init_not_accepted [OF False] show ?thesis
    by (simp add: flags_along_quiet_only)
next
  case True
  from init_accepted [OF True] obtain xs where q: "list_all quiet xs" and ns: "\<not> stopping st"
    and c: "case g_thread_try_new env of
          None \<Rightarrow>
            fst (janus_sampleevh_init env cp st) = 0
            \<and> effects_since st (snd (janus_sampleevh_init env cp st)) = xs @ started_effects
            \<and> initialized (snd (janus_sampleevh_init env cp st))
        | Some error \<Rightarrow>
            fst (janus_sampleevh_init env cp st) = - 1
            \<and> effects_since st (snd (janus_sampleevh_init env cp st))
                 = xs @ start_failed_effects error
            \<and> \<not> initialized (snd (janus_sampleevh_init env cp st))"
    and s: "stopping (snd (janus_sampleevh_init env cp st)) = False"
    by blast
  show ?thesis
  proof (cases "g_thread_try_new env")
    case None
    with c s ns show ?thesis
      by (simp add: flags_along_quiet [OF q]) (simp add: flags_along_def started_effects_def)
  next
    case (Some error)
    with c s ns show ?thesis
      by (simp add: flags_along_quiet [OF q]) (simp add: flags_along_def start_failed_effects_def)
  qed
qed

lemma destroy_flags_follow:
  assumes "janus_sampleevh_destroy env pc st = Some st'"
  shows "(initialized st', stopping st')
     = flags_along (initialized st, stopping st) (effects_since st st')"
proof (cases "initialized st")
  case False
  with assms show ?thesis
    by (simp add: destroy_not_initialized effects_since_def flags_along_def)
next
  case True
  from destroy_initialized [OF True, of env pc] assms obtain w where w: "list_all quiet w"
    and eff: "effects_since st st' = Atomic_set_stopping True # w @ destroyed_effects (backend st)"
    and fl: "\<not> initialized st'" "\<not> stopping st'"
    by (auto simp: effects_since_def)
  have "flags_along (initialized st, stopping st) (effects_since st st')
      = flags_along (True, True) (w @ destroyed_effects (backend st))"
    by (simp add: eff True flags_along_def)
  also have "\<dots> = flags_along (True, True) (destroyed_effects (backend st))"
    by (rule flags_along_quiet [OF w])
  also have "\<dots> = (False, False)"
    by (simp add: flags_along_def destroyed_effects_def)
  finally show ?thesis
    using fl by simp
qed


lemma refused_example:
  "\<not> config_accepted (host_env (enabled_items ''ftp://x'' ''all'') None) (Some ''/etc/janus'')
        initial_state"
  "config_accepted (host_env (enabled_items ''http://x'' ''all'') None) (Some ''/etc/janus'')
        initial_state"
  by (simp_all add: config_accepted_def)


text \<open>
  C4, as the code has it. The changes of the pair (initialized, stopping), write by
  write. Init accepts the configuration when the plugin is not stopping, a path is
  given, the file is parsed, the plugin is enabled and the backend is valid; it
  returns 0 exactly when it accepts and the thread starts. When it does not accept,
  it writes neither flag. When it accepts, it sets \<open>initialized\<close> just before the
  thread start, which is the change (F,F) to (T,F) from a state with \<open>initialized\<close>
  clear, and when the thread cannot be started it takes \<open>initialized\<close> back, the
  change (T,F) to (F,F); these are its only changes. Destroy does nothing with
  \<open>initialized\<close> clear; otherwise it goes to (T,T) first (from (T,F)) and then, in two
  writes, by (T,T) to (F,T) to (F,F). Ingress writes neither flag. The forwarder thread
  writes neither flag, as far as it gets: when it returns, and also when it waits or
  spins for ever. After init and destroy the two variables hold what the writes of the
  call leave.
\<close>

theorem lifecycle_flag_transitions:
  "set (transitions_between st (snd (janus_sampleevh_init ienv cp st)))
      \<subseteq> {((False, False), (True, False)), ((True, False), (False, False))}
   \<and> (g_thread_try_new ienv = None \<longrightarrow>
        set (transitions_between st (snd (janus_sampleevh_init ienv cp st)))
          \<subseteq> {((False, False), (True, False))})
   \<and> (fst (janus_sampleevh_init ienv cp st) = 0 \<and> \<not> initialized st \<longrightarrow>
        transitions_between st (snd (janus_sampleevh_init ienv cp st))
          = [((False, False), (True, False))])
   \<and> (janus_sampleevh_destroy env pc st = Some st' \<longrightarrow>
        transitions_between st st' =
          (if \<not> initialized st then []
           else (if stopping st then [] else [((True, False), (True, True))])
                @ [((True, True), (False, True)), ((False, True), (False, False))]))
   \<and> transitions_between st (janus_sampleevh_incoming_event event st) = []
   \<and> (handler_run env wpc st = Some wst \<longrightarrow> transitions_between st wst = [])
   \<and> transitions_between st (snd (janus_sampleevh_init ienv cp st)) =
        (if config_accepted ienv cp st then
           (case g_thread_try_new ienv of
              None \<Rightarrow> if initialized st then [] else [((False, False), (True, False))]
            | Some error \<Rightarrow>
                if initialized st then [((True, False), (False, False))]
                else [((False, False), (True, False)), ((True, False), (False, False))])
         else [])
   \<and> fst (janus_sampleevh_init ienv cp st)
        = (if config_accepted ienv cp st \<and> g_thread_try_new ienv = None then 0 else - 1)
   \<and> (\<not> config_accepted ienv cp st \<longrightarrow>
        list_all quiet (effects_since st (snd (janus_sampleevh_init ienv cp st))))
   \<and> (initialized (snd (janus_sampleevh_init ienv cp st)),
       stopping (snd (janus_sampleevh_init ienv cp st)))
        = flags_along (initialized st, stopping st)
            (effects_since st (snd (janus_sampleevh_init ienv cp st)))
   \<and> (janus_sampleevh_destroy env pc st = Some st' \<longrightarrow>
        (initialized st', stopping st')
          = flags_along (initialized st, stopping st) (effects_since st st'))
   \<and> list_all quiet (effects_since st (janus_sampleevh_incoming_event event st))
   \<and> initialized (janus_sampleevh_incoming_event event st) = initialized st
   \<and> stopping (janus_sampleevh_incoming_event event st) = stopping st
   \<and> list_all quiet (effects_since st (handler_far env wpc st))
   \<and> transitions_between st (handler_far env wpc st) = []
   \<and> initialized (handler_far env wpc st) = initialized st
   \<and> stopping (handler_far env wpc st) = stopping st
   \<and> (handler_run env wpc st = Some wst \<longrightarrow> handler_far env wpc st = wst)"
proof -
  note init = init_transition_cases [of st ienv cp]
  have a: "set (transitions_between st (snd (janus_sampleevh_init ienv cp st)))
      \<subseteq> {((False, False), (True, False)), ((True, False), (False, False))}"
    using init by auto
  have b: "g_thread_try_new ienv = None \<longrightarrow>
        set (transitions_between st (snd (janus_sampleevh_init ienv cp st)))
          \<subseteq> {((False, False), (True, False))}"
    using init by auto
  have c: "fst (janus_sampleevh_init ienv cp st) = 0 \<and> \<not> initialized st \<longrightarrow>
        transitions_between st (snd (janus_sampleevh_init ienv cp st))
          = [((False, False), (True, False))]"
    using init by auto
  have d: "janus_sampleevh_destroy env pc st = Some st' \<longrightarrow>
        transitions_between st st' =
          (if \<not> initialized st then []
           else (if stopping st then [] else [((True, False), (True, True))])
                @ [((True, True), (False, True)), ((False, True), (False, False))])"
    using destroy_transition_cases [of env pc st st'] by blast
  have e: "transitions_between st (janus_sampleevh_incoming_event event st) = []"
    by (rule quiet_call_no_transition [OF incoming_event_quiet])
  have f: "handler_run env wpc st = Some wst \<longrightarrow> transitions_between st wst = []"
    using handler_run_frame [of env wpc st wst] by (simp add: quiet_call_no_transition)
  note g = init_transitions_exact [of st ienv cp]
  note h = init_result_exact [of ienv cp st]
  have i: "\<not> config_accepted ienv cp st \<longrightarrow>
        list_all quiet (effects_since st (snd (janus_sampleevh_init ienv cp st)))"
    using init_not_accepted [of ienv cp st] by blast
  note j = init_flags_follow [of ienv cp st]
  have k: "janus_sampleevh_destroy env pc st = Some st' \<longrightarrow>
        (initialized st', stopping st')
          = flags_along (initialized st, stopping st) (effects_since st st')"
    using destroy_flags_follow [of env pc st st'] by blast
  have l: "list_all quiet (effects_since st (janus_sampleevh_incoming_event event st))"
    by (rule effects_since_quiet [OF incoming_event_quiet])
  have m: "initialized (janus_sampleevh_incoming_event event st) = initialized st"
    "stopping (janus_sampleevh_incoming_event event st) = stopping st"
    by (simp_all add: janus_sampleevh_incoming_event_def g_async_queue_push_def
          split: option.splits)
  note fr = handler_far_frame [of env wpc st]
  from fr have n: "list_all quiet (effects_since st (handler_far env wpc st))"
    by (simp add: effects_since_quiet)
  from fr have o: "transitions_between st (handler_far env wpc st) = []"
    by (simp add: quiet_call_no_transition)
  from fr have p: "initialized (handler_far env wpc st) = initialized st"
    "stopping (handler_far env wpc st) = stopping st"
    by simp_all
  have q: "handler_run env wpc st = Some wst \<longrightarrow> handler_far env wpc st = wst"
    using handler_far_run [of env wpc st wst] by blast
  from a b c d e f g h i j k l m n o p q show ?thesis
    by (intro conjI)
qed

theorem lifecycle_flag_transitions_witness:
  "transitions_between initial_state
     (snd (janus_sampleevh_init (host_env (enabled_items ''http://x'' ''all'') None)
            (Some ''/etc/janus'') initial_state))
     = [((False, False), (True, False))]
   \<and> transitions_between running_state stopped_state
     = [((True, False), (True, True)), ((True, True), (False, True)), ((False, True), (False, False))]
   \<and> transitions_between running_state (janus_sampleevh_incoming_event (Event 1) running_state) = []
   \<and> \<not> config_accepted (host_env (enabled_items ''ftp://x'' ''all'') None) (Some ''/etc/janus'')
        initial_state
   \<and> transitions_between initial_state
     (snd (janus_sampleevh_init (host_env (enabled_items ''ftp://x'' ''all'') None)
            (Some ''/etc/janus'') initial_state)) = []
   \<and> list_all quiet (effects_since initial_state
     (snd (janus_sampleevh_init (host_env (enabled_items ''ftp://x'' ''all'') None)
            (Some ''/etc/janus'') initial_state)))
   \<and> fst (janus_sampleevh_init (host_env (enabled_items ''ftp://x'' ''all'') None)
            (Some ''/etc/janus'') initial_state) = - 1"
  using lifecycle_flag_transitions
          [where st = initial_state and cp = "Some ''/etc/janus''"
             and ienv = "host_env (enabled_items ''http://x'' ''all'') None"
             and env = backend_up and pc = In_pop and st' = initial_state
             and wpc = At_while and wst = "leave_handler initial_state" and event = "Event 1"]
        lifecycle_flag_transitions
          [where st = running_state and cp = None
             and ienv = "host_env (enabled_items ''http://x'' ''all'') None"
             and env = backend_up and pc = In_pop and st' = stopped_state
             and wpc = In_pop and wst = stopped_state and event = "Event 1"]
        lifecycle_flag_transitions
          [where st = initial_state and cp = "Some ''/etc/janus''"
             and ienv = "host_env (enabled_items ''ftp://x'' ''all'') None"
             and env = backend_up and pc = In_pop and st' = initial_state
             and wpc = At_while and wst = "leave_handler initial_state" and event = "Event 1"]
  by (simp add: init_started_example destroy_running refused_example)
     (simp add: running_state_def)

text \<open>An init whose thread cannot be started goes (F,F) to (T,F) although it fails,
  and back by (T,F) to (F,F); and the end of destroy passes through (F,T).\<close>

theorem init_rollback_transition_counterexample:
  "fst (janus_sampleevh_init (host_env (enabled_items ''http://x'' ''all'') (Some thread_error))
            (Some ''/etc/janus'') initial_state) = - 1
   \<and> transitions_between initial_state
     (snd (janus_sampleevh_init (host_env (enabled_items ''http://x'' ''all'') (Some thread_error))
            (Some ''/etc/janus'') initial_state))
     = [((False, False), (True, False)), ((True, False), (False, False))]
   \<and> ((True, False), (False, False))
        \<notin> {((False, False), (True, False)), ((True, False), (True, True)),
            ((True, True), (False, False))}
   \<and> janus_sampleevh_destroy backend_up In_pop running_state = Some stopped_state
   \<and> transitions_between running_state stopped_state
     = [((True, False), (True, True)), ((True, True), (False, True)), ((False, True), (False, False))]"
  by (simp add: transitions_examples destroy_running init_failed_example)

section \<open>The queue exists while the plugin is up\<close>

text \<open>
  In the state the plugin starts in, and after any call of init, destroy or ingress or
  any run of the thread from a state where it holds: when \<open>initialized\<close> is set and
  \<open>stopping\<close> is clear, the queue pointer is not null. This is the state in which
  ingress pushes.
\<close>

lemma queue_ready_initial: "queue_ready initial_state"
  by (simp add: queue_ready_def initial_state_def)

lemma queue_ready_incoming:
  "queue_ready st \<Longrightarrow> queue_ready (janus_sampleevh_incoming_event event st)"
  by (auto simp: queue_ready_def janus_sampleevh_incoming_event_def g_async_queue_push_def
        split: option.splits)

lemma queue_ready_destroy:
  "janus_sampleevh_destroy env pc st = Some st' \<Longrightarrow> queue_ready st \<Longrightarrow> queue_ready st'"
  using destroy_initialized [of st env pc] destroy_not_initialized [of st env pc]
  by (cases "initialized st") (auto simp: queue_ready_def)

lemma queue_ready_init:
  assumes "queue_ready st"
  shows "queue_ready (snd (janus_sampleevh_init env cp st))"
proof -
  consider (stop) "stopping st" | (nopath) "cp = None"
    | (refused) path where "\<not> stopping st" "cp = Some path"
        "\<forall>c. janus_config_parse env (config_filename path) = Some c
           \<longrightarrow> \<not> (spec_enabled env c \<and> spec_backend_valid c)"
    | (configured) path c where "\<not> stopping st" "cp = Some path"
        "janus_config_parse env (config_filename path) = Some c"
        "spec_enabled env c" "spec_backend_valid c"
    by (cases cp) auto
  then show ?thesis
  proof cases
    case stop
    with assms show ?thesis by (simp add: init_stopping)
  next
    case nopath
    with assms show ?thesis by (simp add: init_no_path)
  next
    case (refused path)
    with assms show ?thesis
      by (simp add: init_refused [OF refused(1,3)] queue_ready_def)
  next
    case (configured path c)
    show ?thesis
      by (simp add: configured(2) init_configured [OF configured(1,3-5)] start_handler_eq
            queue_ready_def split: option.splits)
  qed
qed

lemma handler_run_keeps_queue:
  "handler_run env pc st = Some st' \<Longrightarrow> events st \<noteq> None \<Longrightarrow> events st' \<noteq> None"
proof (induction env pc st arbitrary: st' rule: handler_run.induct)
  case (1 env st)
  let ?st1 = "emit (JANUS_LOG LOG_VERB ''Joining SampleEventHandler handler thread\<newline>'' []) st"
  from "1.prems"(1) have "handler_run env At_while ?st1 = Some st'"
    by (simp only: handler_run.simps(1))
  moreover from "1.prems"(2) have "events ?st1 \<noteq> None"
    by simp
  ultimately show ?case
    by (rule "1.IH")
next
  case (2 env st)
  show ?case
  proof (cases "initialized st \<and> \<not> stopping st")
    case True
    with "2.prems"(1) have "handler_run env In_pop st = Some st'"
      by (simp del: handler_run.simps(3))
    from "2.IH" [OF True this "2.prems"(2)] show ?thesis .
  next
    case False
    with "2.prems"(1) have "st' = leave_handler st"
      by auto
    with "2.prems"(2) show ?thesis
      by (simp add: leave_handler_frame)
  qed
next
  case (3 env st)
  from "3.prems"(2) obtain q where q: "events st = Some q"
    by auto
  show ?case
  proof (cases q)
    case Nil
    with q "3.prems"(1) show ?thesis by simp
  next
    case (Cons event rest)
    show ?thesis
    proof (cases event)
      case NULL
      with q Cons "3.prems"(1) have "handler_run env At_while (st\<lparr>events := Some rest\<rparr>) = Some st'"
        by (simp del: handler_run.simps(2))
      from "3.IH"(1) [OF q Cons NULL this] show ?thesis
        by simp
    next
      case Exit_event
      with q Cons "3.prems"(1) have "st' = leave_handler (st\<lparr>events := Some rest\<rparr>)"
        by auto
      then show ?thesis
        by (simp add: leave_handler_frame)
    next
      case (Event n)
      with q Cons "3.prems"(1)
      have "handler_run env At_while (handle_event env n (st\<lparr>events := Some rest\<rparr>)) = Some st'"
        by (simp del: handler_run.simps(2))
      from "3.IH"(2) [OF q Cons Event this] show ?thesis
        by (simp add: handle_event_frame)
    qed
  qed
qed

lemma queue_ready_handler:
  "handler_run env pc st = Some st' \<Longrightarrow> queue_ready st \<Longrightarrow> queue_ready st'"
  using handler_run_frame [of env pc st st'] handler_run_keeps_queue [of env pc st st']
  by (auto simp: queue_ready_def)

end
